theory Spec2Isabelle
  imports Complex_Main "HOL-Library.Sublist"
begin

section \<open>Python values, exceptions and strings\<close>

text \<open>
  The parser works on Python strings, dictionaries and lists and signals failure with
  exceptions. A raised exception is the left summand of a result; the value of
  \<open>str(e)\<close> is carried in the constructor.
\<close>

datatype exn =
    ValueError string
  | KeyError string
  | AttributeError string
  | TypeError string
  | IOError string
  | XMLSyntaxError string

fun exn_str :: "exn \<Rightarrow> string" where
  "exn_str (ValueError m) = m"
| "exn_str (KeyError m) = m"
| "exn_str (AttributeError m) = m"
| "exn_str (TypeError m) = m"
| "exn_str (IOError m) = m"
| "exn_str (XMLSyntaxError m) = m"

fun is_ValueError :: "exn \<Rightarrow> bool" where
  "is_ValueError (ValueError m) = True"
| "is_ValueError e = False"

fun is_KeyError :: "exn \<Rightarrow> bool" where
  "is_KeyError (KeyError m) = True"
| "is_KeyError e = False"

definition exn_bind :: "exn + 'a \<Rightarrow> ('a \<Rightarrow> exn + 'b) \<Rightarrow> exn + 'b" where
  "exn_bind m f = (case m of Inl e \<Rightarrow> Inl e | Inr x \<Rightarrow> f x)"

datatype pyval =
    PNone
  | PInt int
  | PStr string
  | PList "pyval list"
  | PDict "(string \<times> pyval) list"

type_synonym pydict = "(string \<times> pyval) list"

fun truthy :: "pyval \<Rightarrow> bool" where
  "truthy PNone = False"
| "truthy (PInt i) = (i \<noteq> 0)"
| "truthy (PStr s) = (s \<noteq> [])"
| "truthy (PList xs) = (xs \<noteq> [])"
| "truthy (PDict kvs) = (kvs \<noteq> [])"

definition dict_get :: "pydict \<Rightarrow> string \<Rightarrow> pyval \<Rightarrow> pyval" where
  "dict_get d k dflt = (case map_of d k of None \<Rightarrow> dflt | Some v \<Rightarrow> v)"

text \<open>
  Strings are lists of characters with code points below 256. The character classes
  are those of Python's \<open>str\<close> methods and of the \<open>re\<close> module on that range:
  \<open>\s\<close> and \<open>str.isspace\<close>, \<open>\d\<close>, \<open>\w\<close>, and \<open>str.lower\<close>.
\<close>

definition re_s :: "char \<Rightarrow> bool" where
  "re_s c = (let n = (of_char c :: nat)
             in (9 \<le> n \<and> n \<le> 13) \<or> (28 \<le> n \<and> n \<le> 32) \<or> n = 133 \<or> n = 160)"

definition re_d :: "char \<Rightarrow> bool" where
  "re_d c = (let n = (of_char c :: nat) in 48 \<le> n \<and> n \<le> 57)"

definition re_w :: "char \<Rightarrow> bool" where
  "re_w c = (let n = (of_char c :: nat)
             in (48 \<le> n \<and> n \<le> 57) \<or> (65 \<le> n \<and> n \<le> 90) \<or> n = 95 \<or> (97 \<le> n \<and> n \<le> 122)
                \<or> n = 170 \<or> n = 178 \<or> n = 179 \<or> n = 181 \<or> n = 185 \<or> n = 186
                \<or> (188 \<le> n \<and> n \<le> 190) \<or> (192 \<le> n \<and> n \<le> 214)
                \<or> (216 \<le> n \<and> n \<le> 246) \<or> 248 \<le> n)"

definition lower_char :: "char \<Rightarrow> char" where
  "lower_char c = (let n = (of_char c :: nat)
                   in if (65 \<le> n \<and> n \<le> 90) \<or> (192 \<le> n \<and> n \<le> 222 \<and> n \<noteq> 215)
                      then char_of (n + 32) else c)"

definition lower :: "string \<Rightarrow> string" where
  "lower s = map lower_char s"

definition strip :: "string \<Rightarrow> string" where
  "strip s = rev (dropWhile re_s (rev (dropWhile re_s s)))"

definition startswith :: "string \<Rightarrow> string \<Rightarrow> bool" where
  "startswith s p = prefix p s"

text \<open>\<open>needle in haystack\<close> on strings: contiguous substring.\<close>

fun str_contains :: "string \<Rightarrow> string \<Rightarrow> bool" where
  "str_contains [] needle = (needle = [])"
| "str_contains (c # cs) needle = (prefix needle (c # cs) \<or> str_contains cs needle)"

text \<open>
  \<open>int(s)\<close> on the strings the parser converts: optional surrounding whitespace
  around decimal digits. Anything else is the ValueError of Python's \<open>int\<close>.
\<close>

definition digit_val :: "char \<Rightarrow> int" where
  "digit_val c = int (of_char c) - 48"

definition py_int :: "string \<Rightarrow> exn + int" where
  "py_int s = (let t = strip s
               in if t \<noteq> [] \<and> list_all re_d t
                  then Inr (foldl (\<lambda>a c. 10 * a + digit_val c) 0 t)
                  else Inl (ValueError ''invalid literal for int() with base 10''))"

section \<open>datetime\<close>

text \<open>
  A \<open>datetime.datetime\<close> value: the calendar fields and \<open>tzinfo\<close>, which is either
  absent (a naive value) or a fixed-offset \<open>timezone\<close>, given by its offset from UTC in
  microseconds.
\<close>

record datetime =
  year :: int
  month :: int
  day :: int
  hour :: int
  minute :: int
  second :: int
  microsecond :: int
  tzinfo :: "int option"

definition is_leap :: "int \<Rightarrow> bool" where
  "is_leap y = (y mod 4 = 0 \<and> (y mod 100 \<noteq> 0 \<or> y mod 400 = 0))"

definition days_in_month :: "int \<Rightarrow> int \<Rightarrow> int" where
  "days_in_month y m =
     (if m = 2 then (if is_leap y then 29 else 28)
      else if m = 4 \<or> m = 6 \<or> m = 9 \<or> m = 11 then 30 else 31)"

text \<open>The constructor \<open>datetime(year, month, day, hour, minute, second, microsecond, tzinfo)\<close>.\<close>

definition mk_datetime ::
  "int \<Rightarrow> int \<Rightarrow> int \<Rightarrow> int \<Rightarrow> int \<Rightarrow> int \<Rightarrow> int \<Rightarrow> int option \<Rightarrow> exn + datetime" where
  "mk_datetime y m d hh mm ss us tz =
     (if \<not> (1 \<le> y \<and> y \<le> 9999) then Inl (ValueError ''year is out of range'')
      else if \<not> (1 \<le> m \<and> m \<le> 12) then Inl (ValueError ''month must be in 1..12'')
      else if \<not> (1 \<le> d \<and> d \<le> days_in_month y m) then Inl (ValueError ''day is out of range for month'')
      else if \<not> (0 \<le> hh \<and> hh \<le> 23) then Inl (ValueError ''hour must be in 0..23'')
      else if \<not> (0 \<le> mm \<and> mm \<le> 59) then Inl (ValueError ''minute must be in 0..59'')
      else if \<not> (0 \<le> ss \<and> ss \<le> 59) then Inl (ValueError ''second must be in 0..59'')
      else if \<not> (0 \<le> us \<and> us \<le> 999999) then Inl (ValueError ''microsecond must be in 0..999999'')
      else Inr \<lparr>year = y, month = m, day = d, hour = hh, minute = mm, second = ss,
                microsecond = us, tzinfo = tz\<rparr>)"

text \<open>\<open>timezone(timedelta(seconds=gmtoff, microseconds=fraction))\<close>: the offset must lie
  strictly between minus and plus 24 hours.\<close>

definition mk_timezone :: "int \<Rightarrow> int \<Rightarrow> exn + int" where
  "mk_timezone gmtoff fraction =
     (let off = gmtoff * 1000000 + fraction
      in if - 86400000000 < off \<and> off < 86400000000 then Inr off
         else Inl (ValueError ''offset must be a timedelta strictly between -24h and 24h''))"

definition days_before_year :: "int \<Rightarrow> int" where
  "days_before_year y = (y - 1) * 365 + (y - 1) div 4 - (y - 1) div 100 + (y - 1) div 400"

definition days_before_month :: "int \<Rightarrow> int \<Rightarrow> int" where
  "days_before_month y m =
     [0, 31, 59, 90, 120, 151, 181, 212, 243, 273, 304, 334] ! nat (m - 1)
       + (if 2 < m \<and> is_leap y then 1 else 0)"

definition toordinal :: "datetime \<Rightarrow> int" where
  "toordinal dt = days_before_year (year dt) + days_before_month (year dt) (month dt) + day dt"

text \<open>Microseconds of the wall-clock fields since the start of day 0.\<close>

definition wall_micros :: "datetime \<Rightarrow> int" where
  "wall_micros dt =
     (((toordinal dt * 24 + hour dt) * 60 + minute dt) * 60 + second dt) * 1000000
       + microsecond dt"

text \<open>
  Ordering of datetimes: two naive values compare by their fields, two aware values by
  the instant (fields minus offset); mixing the two raises TypeError.
\<close>

definition dt_cmp :: "(int \<Rightarrow> int \<Rightarrow> bool) \<Rightarrow> datetime \<Rightarrow> datetime \<Rightarrow> exn + bool" where
  "dt_cmp rel a b =
     (case (tzinfo a, tzinfo b) of
        (None, None) \<Rightarrow> Inr (rel (wall_micros a) (wall_micros b))
      | (Some oa, Some ob) \<Rightarrow> Inr (rel (wall_micros a - oa) (wall_micros b - ob))
      | _ \<Rightarrow> Inl (TypeError ''cannot compare offset-naive and offset-aware datetimes''))"

definition dt_lt :: "datetime \<Rightarrow> datetime \<Rightarrow> exn + bool" where
  "dt_lt a b = dt_cmp (\<lambda>x y. x < y) a b"

definition dt_gt :: "datetime \<Rightarrow> datetime \<Rightarrow> exn + bool" where
  "dt_gt a b = dt_cmp (\<lambda>x y. x > y) a b"

section \<open>datetime.strptime\<close>

text \<open>
  \<open>datetime.strptime(data, format)\<close> of the Python standard library, for the
  directives that occur in the parser's format list (\<open>%a %b %d %H %m %M %S %Y %z %Z\<close>).
  The library turns the format into a regular expression, matches it against the start of
  the data with a backtracking matcher, requires the match to end at the end of the data,
  and converts the matched groups. Each regular expression below is the library's, as a
  function from the input to the list of its matches (matched text and remaining input) in
  the order the matcher tries them. The matching ignores case, and every failure is a
  ValueError. The names of the host's time zone (\<open>time.tzname\<close>, \<open>time.daylight\<close>)
  decide what \<open>%Z\<close> accepts and are a parameter.
\<close>

record host =
  tzname :: "string \<times> string"
  daylight :: bool

definition in_range :: "char \<Rightarrow> char \<Rightarrow> char \<Rightarrow> bool" where
  "in_range lo hi c = ((of_char lo :: nat) \<le> of_char c \<and> (of_char c :: nat) \<le> of_char hi)"

definition is_char :: "char \<Rightarrow> char \<Rightarrow> bool" where
  "is_char a c = (c = a)"

definition rx1 :: "(char \<Rightarrow> bool) \<Rightarrow> string \<Rightarrow> (string \<times> string) list" where
  "rx1 p s = (case s of a # r \<Rightarrow> if p a then [([a], r)] else [] | [] \<Rightarrow> [])"

definition rx2 :: "(char \<Rightarrow> bool) \<Rightarrow> (char \<Rightarrow> bool) \<Rightarrow> string \<Rightarrow> (string \<times> string) list" where
  "rx2 p q s = (case s of a # b # r \<Rightarrow> if p a \<and> q b then [([a, b], r)] else [] | _ \<Rightarrow> [])"

text \<open>\<open>%d\<close>: \<open>3[0-1]|[1-2]\d|0[1-9]|[1-9]| [1-9]\<close>\<close>

definition rx_d :: "string \<Rightarrow> (string \<times> string) list" where
  "rx_d s = rx2 (is_char CHR ''3'') (in_range CHR ''0'' CHR ''1'') s
          @ rx2 (in_range CHR ''1'' CHR ''2'') re_d s
          @ rx2 (is_char CHR ''0'') (in_range CHR ''1'' CHR ''9'') s
          @ rx1 (in_range CHR ''1'' CHR ''9'') s
          @ rx2 (is_char CHR '' '') (in_range CHR ''1'' CHR ''9'') s"

text \<open>\<open>%H\<close>: \<open>2[0-3]|[0-1]\d|\d\<close>\<close>

definition rx_H :: "string \<Rightarrow> (string \<times> string) list" where
  "rx_H s = rx2 (is_char CHR ''2'') (in_range CHR ''0'' CHR ''3'') s
          @ rx2 (in_range CHR ''0'' CHR ''1'') re_d s
          @ rx1 re_d s"

text \<open>\<open>%m\<close>: \<open>1[0-2]|0[1-9]|[1-9]\<close>\<close>

definition rx_m :: "string \<Rightarrow> (string \<times> string) list" where
  "rx_m s = rx2 (is_char CHR ''1'') (in_range CHR ''0'' CHR ''2'') s
          @ rx2 (is_char CHR ''0'') (in_range CHR ''1'' CHR ''9'') s
          @ rx1 (in_range CHR ''1'' CHR ''9'') s"

text \<open>\<open>%M\<close>: \<open>[0-5]\d|\d\<close>\<close>

definition rx_M :: "string \<Rightarrow> (string \<times> string) list" where
  "rx_M s = rx2 (in_range CHR ''0'' CHR ''5'') re_d s @ rx1 re_d s"

text \<open>\<open>%S\<close>: \<open>6[0-1]|[0-5]\d|\d\<close>\<close>

definition rx_S :: "string \<Rightarrow> (string \<times> string) list" where
  "rx_S s = rx2 (is_char CHR ''6'') (in_range CHR ''0'' CHR ''1'') s
          @ rx2 (in_range CHR ''0'' CHR ''5'') re_d s
          @ rx1 re_d s"

text \<open>\<open>%Y\<close>: \<open>\d\d\d\d\<close>\<close>

definition rx_Y :: "string \<Rightarrow> (string \<times> string) list" where
  "rx_Y s = (case s of a # b # c # d # r \<Rightarrow>
               if re_d a \<and> re_d b \<and> re_d c \<and> re_d d then [([a, b, c, d], r)] else []
             | _ \<Rightarrow> [])"

text \<open>
  \<open>%a\<close>, \<open>%b\<close>, \<open>%Z\<close>: an alternation of names, longest first, compared ignoring case.
\<close>

definition seqToRE :: "string list \<Rightarrow> string \<Rightarrow> (string \<times> string) list" where
  "seqToRE to_convert s =
     concat (map (\<lambda>name. if lower (take (length name) s) = lower name \<and> length name \<le> length s
                          then [(take (length name) s, drop (length name) s)] else [])
                 (rev (sort_key length to_convert)))"

definition a_weekday :: "string list" where
  "a_weekday = [''mon'', ''tue'', ''wed'', ''thu'', ''fri'', ''sat'', ''sun'']"

definition a_month :: "string list" where
  "a_month = [[], ''jan'', ''feb'', ''mar'', ''apr'', ''may'', ''jun'',
              ''jul'', ''aug'', ''sep'', ''oct'', ''nov'', ''dec'']"

definition timezone_names :: "host \<Rightarrow> string list" where
  "timezone_names h =
     remdups ([''utc'', ''gmt'', lower (fst (tzname h))]
              @ (if daylight h then [lower (snd (tzname h))] else []))"

text \<open>\<open>\s+\<close>, greedy: the longest run of whitespace first, then shorter ones.\<close>

fun rx_ws_plus :: "string \<Rightarrow> string list" where
  "rx_ws_plus [] = []"
| "rx_ws_plus (c # cs) = (if re_s c then rx_ws_plus cs @ [cs] else [])"

text \<open>\<open>%z\<close>: \<open>[+-]\d\d:?[0-5]\d(:?[0-5]\d(\.\d{1,6})?)?|(?-i:Z)\<close>\<close>

definition rx_opt_colon :: "string \<Rightarrow> (string \<times> string) list" where
  "rx_opt_colon s = rx1 (is_char CHR '':'') s @ [([], s)]"

definition rx_opt_fraction :: "string \<Rightarrow> (string \<times> string) list" where
  "rx_opt_fraction s =
     (case s of
        c # r \<Rightarrow>
          if c = CHR ''.''
          then map (\<lambda>k. (c # take k r, drop k r))
                   (rev [1 ..< Suc (length (takeWhile re_d (take 6 r)))])
          else []
      | [] \<Rightarrow> [])
     @ [([], s)]"

definition rx_opt_seconds :: "string \<Rightarrow> (string \<times> string) list" where
  "rx_opt_seconds s =
     concat (map (\<lambda>(c2, r2).
               concat (map (\<lambda>(ss, r3). map (\<lambda>(fr, r4). (c2 @ ss @ fr, r4)) (rx_opt_fraction r3))
                           (rx2 (in_range CHR ''0'' CHR ''5'') re_d r2)))
             (rx_opt_colon s))
     @ [([], s)]"

definition rx_z :: "string \<Rightarrow> (string \<times> string) list" where
  "rx_z s =
     concat (map (\<lambda>(sg, r0).
       concat (map (\<lambda>(hh, r1).
         concat (map (\<lambda>(c1, r2).
           concat (map (\<lambda>(mm, r3).
             map (\<lambda>(tl, r4). (sg @ hh @ c1 @ mm @ tl, r4)) (rx_opt_seconds r3))
             (rx2 (in_range CHR ''0'' CHR ''5'') re_d r2)))
           (rx_opt_colon r1)))
         (rx2 re_d re_d r0)))
       (rx1 (\<lambda>c. c = CHR ''+'' \<or> c = CHR ''-'') s))
     @ rx1 (is_char CHR ''Z'') s"

definition rx_directive :: "host \<Rightarrow> char \<Rightarrow> string \<Rightarrow> (string \<times> string) list" where
  "rx_directive h d s =
     (if d = CHR ''a'' then seqToRE a_weekday s
      else if d = CHR ''b'' then seqToRE (tl a_month) s
      else if d = CHR ''d'' then rx_d s
      else if d = CHR ''H'' then rx_H s
      else if d = CHR ''m'' then rx_m s
      else if d = CHR ''M'' then rx_M s
      else if d = CHR ''S'' then rx_S s
      else if d = CHR ''Y'' then rx_Y s
      else if d = CHR ''z'' then rx_z s
      else if d = CHR ''Z'' then seqToRE (timezone_names h) s
      else [])"

text \<open>
  The pattern of a format: a \<open>%\<close> and the next character are a directive, a run of
  whitespace is \<open>\s+\<close>, any other character stands for itself.
\<close>

datatype token = Directive char | Whitespace | Literal char

fun pattern :: "string \<Rightarrow> token list" where
  "pattern [] = []"
| "pattern [c] = (if re_s c then [Whitespace] else [Literal c])"
| "pattern (c # d # cs) =
     (if c = CHR ''%'' then Directive d # pattern cs
      else if re_s c then (if re_s d then pattern (d # cs) else Whitespace # pattern (d # cs))
      else Literal c # pattern (d # cs))"

text \<open>All matches of a pattern, with the groups found, in the matcher's order.\<close>

fun rx_match ::
  "host \<Rightarrow> token list \<Rightarrow> string \<Rightarrow> (char \<times> string) list \<Rightarrow> ((char \<times> string) list \<times> string) list" where
  "rx_match h [] s found = [(found, s)]"
| "rx_match h (Literal c # ts) s found =
     (case s of
        x # r \<Rightarrow> if lower_char x = lower_char c then rx_match h ts r found else []
      | [] \<Rightarrow> [])"
| "rx_match h (Whitespace # ts) s found =
     concat (map (\<lambda>r. rx_match h ts r found) (rx_ws_plus s))"
| "rx_match h (Directive d # ts) s found =
     concat (map (\<lambda>(g, r). rx_match h ts r (found @ [(d, g)])) (rx_directive h d s))"

text \<open>The conversion of the groups found, in the order of the format.\<close>

record tm =
  tm_year :: "int option"
  tm_month :: int
  tm_day :: int
  tm_hour :: int
  tm_minute :: int
  tm_second :: int
  tm_gmtoff :: "(int \<times> int) option"

definition list_index :: "'a list \<Rightarrow> 'a \<Rightarrow> int" where
  "list_index xs x = int (length (takeWhile (\<lambda>y. y \<noteq> x) xs))"

definition convert_z :: "string \<Rightarrow> exn + (int \<times> int)" where
  "convert_z z0 =
     (if z0 = ''Z'' then Inr (0, 0)
      else
        let colon = (z0 ! 3 = CHR '':'');
            z1 = (if colon then take 3 z0 @ drop 4 z0 else z0)
        in if colon \<and> 5 < length z1 \<and> z1 ! 5 \<noteq> CHR '':''
           then Inl (ValueError ''Inconsistent use of : in offset'')
           else
             let z = (if colon \<and> 5 < length z1 then take 5 z1 @ drop 6 z1 else z1)
             in exn_bind (py_int (take 2 (drop 1 z))) (\<lambda>hours.
                exn_bind (py_int (take 2 (drop 3 z))) (\<lambda>minutes.
                exn_bind (if take 2 (drop 5 z) = [] then Inr 0 else py_int (take 2 (drop 5 z))) (\<lambda>seconds.
                exn_bind (py_int (drop 8 z @ replicate (6 - length (drop 8 z)) CHR ''0'')) (\<lambda>fraction.
                  let gmtoff = hours * 60 * 60 + minutes * 60 + seconds
                  in if startswith z ''-'' then Inr (- gmtoff, - fraction)
                     else Inr (gmtoff, fraction))))))"

definition convert_group :: "tm \<Rightarrow> char \<times> string \<Rightarrow> exn + tm" where
  "convert_group t kv =
     (let k = fst kv; v = snd kv
      in if k = CHR ''Y'' then exn_bind (py_int v) (\<lambda>n. Inr (t\<lparr>tm_year := Some n\<rparr>))
         else if k = CHR ''m'' then exn_bind (py_int v) (\<lambda>n. Inr (t\<lparr>tm_month := n\<rparr>))
         else if k = CHR ''b'' then Inr (t\<lparr>tm_month := list_index a_month (lower v)\<rparr>)
         else if k = CHR ''d'' then exn_bind (py_int v) (\<lambda>n. Inr (t\<lparr>tm_day := n\<rparr>))
         else if k = CHR ''H'' then exn_bind (py_int v) (\<lambda>n. Inr (t\<lparr>tm_hour := n\<rparr>))
         else if k = CHR ''M'' then exn_bind (py_int v) (\<lambda>n. Inr (t\<lparr>tm_minute := n\<rparr>))
         else if k = CHR ''S'' then exn_bind (py_int v) (\<lambda>n. Inr (t\<lparr>tm_second := n\<rparr>))
         else if k = CHR ''z'' then exn_bind (convert_z v) (\<lambda>off. Inr (t\<lparr>tm_gmtoff := Some off\<rparr>))
         else Inr t)"

fun convert_groups :: "tm \<Rightarrow> (char \<times> string) list \<Rightarrow> exn + tm" where
  "convert_groups t [] = Inr t"
| "convert_groups t (kv # kvs) = exn_bind (convert_group t kv) (\<lambda>t'. convert_groups t' kvs)"

definition tm_init :: tm where
  "tm_init = \<lparr>tm_year = None, tm_month = 1, tm_day = 1, tm_hour = 0, tm_minute = 0,
              tm_second = 0, tm_gmtoff = None\<rparr>"

definition strptime :: "host \<Rightarrow> string \<Rightarrow> string \<Rightarrow> exn + datetime" where
  "strptime h data_string fmt =
     (case rx_match h (pattern fmt) data_string [] of
        [] \<Rightarrow> Inl (ValueError ''time data does not match format'')
      | (found, rest) # _ \<Rightarrow>
          if rest \<noteq> [] then Inl (ValueError ''unconverted data remains'')
          else
            exn_bind (convert_groups tm_init found) (\<lambda>t.
            exn_bind (case tm_gmtoff t of
                        None \<Rightarrow> Inr None
                      | Some (gmtoff, fraction) \<Rightarrow>
                          exn_bind (mk_timezone gmtoff fraction) (\<lambda>off. Inr (Some off))) (\<lambda>tz.
              mk_datetime (case tm_year t of None \<Rightarrow> 1900 | Some y \<Rightarrow> y) (tm_month t) (tm_day t)
                          (tm_hour t) (tm_minute t) (tm_second t) 0 tz)))"

section \<open>The date normalizer: \<open>PodcastRSSParser._parse_date\<close>\<close>

definition formats :: "string list" where
  "formats =
     [''%a, %d %b %Y %H:%M:%S %z'',
      ''%a, %d %b %Y %H:%M:%S %Z'',
      ''%a, %d %b %Y %H:%M:%S'',
      ''%Y-%m-%dT%H:%M:%S%z'',
      ''%Y-%m-%dT%H:%M:%SZ'',
      ''%Y-%m-%dT%H:%M:%S'',
      ''%Y-%m-%d %H:%M:%S'',
      ''%Y-%m-%d'',
      ''%d %b %Y %H:%M:%S %z'',
      ''%d %b %Y'']"

text \<open>
  \<open>re.search(r'[+-]\d{4}$', s)\<close> and \<open>re.sub(r'([+-]\d{2})(\d{2})$', r'\1:\2', s)\<close>, on a
  stripped string (no newline at its end, so \<open>$\<close> is the end of the string).
\<close>

definition ends_with_offset :: "string \<Rightarrow> bool" where
  "ends_with_offset s =
     (case drop (length s - 5) s of
        [sg, a, b, c, d] \<Rightarrow> (sg = CHR ''+'' \<or> sg = CHR ''-'') \<and> re_d a \<and> re_d b \<and> re_d c \<and> re_d d
      | _ \<Rightarrow> False)"

definition re_sub_offset :: "string \<Rightarrow> string" where
  "re_sub_offset s =
     (if ends_with_offset s
      then take (length s - 2) s @ '':'' @ drop (length s - 2) s
      else s)"

text \<open>
  \<open>re.search(r'(\d{1,2})\s+(\w{3})\s+(\d{4})', s)\<close>: the groups of the leftmost match.
\<close>

definition rx_w3 :: "string \<Rightarrow> (string \<times> string) list" where
  "rx_w3 s = (case s of a # b # c # r \<Rightarrow>
                if re_w a \<and> re_w b \<and> re_w c then [([a, b, c], r)] else []
              | _ \<Rightarrow> [])"

definition rx_date_at :: "string \<Rightarrow> (string \<times> string \<times> string) list" where
  "rx_date_at s =
     concat (map (\<lambda>(d, r1).
       concat (map (\<lambda>r2.
         concat (map (\<lambda>(m, r3).
           concat (map (\<lambda>r4. map (\<lambda>(y, r5). (d, m, y)) (rx_Y r4)) (rx_ws_plus r3)))
           (rx_w3 r2)))
         (rx_ws_plus r1)))
       (rx2 re_d re_d s @ rx1 re_d s))"

fun re_search_date :: "string \<Rightarrow> (string \<times> string \<times> string) option" where
  "re_search_date [] = None"
| "re_search_date (c # cs) =
     (case rx_date_at (c # cs) of g # _ \<Rightarrow> Some g | [] \<Rightarrow> re_search_date cs)"

definition month_map :: "(string \<times> int) list" where
  "month_map =
     [(''Jan'', 1), (''Feb'', 2), (''Mar'', 3), (''Apr'', 4), (''May'', 5), (''Jun'', 6),
      (''Jul'', 7), (''Aug'', 8), (''Sep'', 9), (''Oct'', 10), (''Nov'', 11), (''Dec'', 12)]"

text \<open>The fallback of lines 55 to 67: only ValueError and KeyError are caught.\<close>

definition fallback_date :: "string \<Rightarrow> exn + datetime option" where
  "fallback_date s =
     (case re_search_date s of
        None \<Rightarrow> Inr None
      | Some (d, m, y) \<Rightarrow>
          (case map_of month_map m of
             None \<Rightarrow> Inr None
           | Some mon \<Rightarrow>
               (case exn_bind (py_int y) (\<lambda>yy.
                     exn_bind (py_int d) (\<lambda>dd. mk_datetime yy mon dd 0 0 0 0 None)) of
                  Inr dt \<Rightarrow> Inr (Some dt)
                | Inl e \<Rightarrow> if is_ValueError e \<or> is_KeyError e then Inr None else Inl e)))"

text \<open>
  What the function does besides returning: each call of \<open>strptime\<close> and each line
  printed, in order.
\<close>

datatype event = Strptime string string | Print string

text \<open>The loop over the formats: a ValueError moves on to the next format, a match ends
  the loop, any other exception leaves the function.\<close>

fun try_formats :: "host \<Rightarrow> string \<Rightarrow> string list \<Rightarrow> (exn + datetime option) \<times> event list" where
  "try_formats h s [] = (Inr None, [])"
| "try_formats h s (fmt # fmts) =
     (case strptime h s fmt of
        Inr dt \<Rightarrow> (Inr (Some dt), [Strptime s fmt])
      | Inl e \<Rightarrow>
          if is_ValueError e
          then (case try_formats h s fmts of (r, ev) \<Rightarrow> (r, Strptime s fmt # ev))
          else (Inl e, [Strptime s fmt]))"

definition parse_date_io :: "host \<Rightarrow> string \<Rightarrow> (exn + datetime option) \<times> event list" where
  "parse_date_io h date_string0 =
     (if date_string0 = [] then (Inr None, [])
      else
        let date_string1 = strip date_string0;
            date_string = (if ends_with_offset date_string1 then re_sub_offset date_string1
                           else date_string1)
        in case try_formats h date_string formats of
             (Inl e, ev) \<Rightarrow> (Inl e, ev)
           | (Inr parsed, ev) \<Rightarrow>
               (case (if parsed = None then fallback_date date_string else Inr parsed) of
                  Inl e \<Rightarrow> (Inl e, ev)
                | Inr None \<Rightarrow>
                    (Inr None, ev @ [Print (''Warning: Could not parse date: '' @ date_string)])
                | Inr (Some dt) \<Rightarrow>
                    (Inr (Some (if tzinfo dt = None then dt\<lparr>tzinfo := Some 0\<rparr> else dt)), ev)))"

definition parse_date :: "host \<Rightarrow> string \<Rightarrow> exn + datetime option" where
  "parse_date h date_string = fst (parse_date_io h date_string)"

section \<open>Feed documents\<close>

text \<open>
  A parsed feed is an lxml element tree: each element has a tag (a namespaced tag in
  Clark notation \<open>{uri}local\<close>), attributes, the text before its first child (absent
  when there is none) and its child elements in document order. Comments and processing
  instructions, which no search by tag returns, and the text after an element, which the
  parser never reads, are left out.
\<close>

datatype element =
  Element (elem_tag: string) (attrib: "(string \<times> string) list")
          (elem_text: "string option") (children: "element list")

text \<open>The element and all its descendants, in document order.\<close>

fun iter :: "element \<Rightarrow> element list" where
  "iter (Element t a x cs) = Element t a x cs # concat (map iter cs)"

definition descendants :: "element \<Rightarrow> element list" where
  "descendants e = concat (map iter (children e))"

text \<open>\<open>feed_root.xpath('//item')\<close>: every \<open>item\<close> element of the document.\<close>

definition xpath_items :: "element \<Rightarrow> element list" where
  "xpath_items feed_root = filter (\<lambda>e. elem_tag e = ''item'') (iter feed_root)"

text \<open>\<open>e.find(t)\<close> and \<open>e.findall(t)\<close> look at the children, \<open>e.find('.//' + t)\<close> and
  \<open>e.findall('.//' + t)\<close> at all descendants.\<close>

definition find_child :: "element \<Rightarrow> string \<Rightarrow> element option" where
  "find_child e t = List.find (\<lambda>c. elem_tag c = t) (children e)"

definition findall_child :: "element \<Rightarrow> string \<Rightarrow> element list" where
  "findall_child e t = filter (\<lambda>c. elem_tag c = t) (children e)"

definition find_desc :: "element \<Rightarrow> string \<Rightarrow> element option" where
  "find_desc e t = List.find (\<lambda>c. elem_tag c = t) (descendants e)"

definition findall_desc :: "element \<Rightarrow> string \<Rightarrow> element list" where
  "findall_desc e t = filter (\<lambda>c. elem_tag c = t) (descendants e)"

definition attr_get :: "element \<Rightarrow> string \<Rightarrow> string option" where
  "attr_get e k = map_of (attrib e) k"

definition attr_get_default :: "element \<Rightarrow> string \<Rightarrow> string \<Rightarrow> string" where
  "attr_get_default e k dflt = (case attr_get e k of None \<Rightarrow> dflt | Some v \<Rightarrow> v)"

definition podcast_ns :: string where
  "podcast_ns = ''{https://podcastindex.org/namespace/1.0}''"

definition itunes_ns :: string where
  "itunes_ns = ''{http://www.itunes.com/dtds/podcast-1.0.dtd}''"

section \<open>The episode extractor: \<open>PodcastRSSParser._parse_episode\<close>\<close>

definition get_text :: "element option \<Rightarrow> pyval" where
  "get_text element =
     (case element of
        Some e \<Rightarrow> (case elem_text e of None \<Rightarrow> PNone | Some t \<Rightarrow> PStr t)
      | None \<Rightarrow> PStr [])"

definition get_cdata_content :: "element option \<Rightarrow> pyval" where
  "get_cdata_content element =
     (case element of
        Some e \<Rightarrow>
          (case elem_text e of
             Some t \<Rightarrow> if t \<noteq> [] then PStr (strip t) else PStr []
           | None \<Rightarrow> PStr [])
      | None \<Rightarrow> PStr [])"

definition py_or :: "pyval \<Rightarrow> pyval \<Rightarrow> pyval" where
  "py_or a b = (if truthy a then a else b)"

definition parse_enclosures :: "element \<Rightarrow> pyval list" where
  "parse_enclosures item =
     map (\<lambda>enclosure.
            PDict [(''url'', PStr (attr_get_default enclosure ''url'' [])),
                   (''type'', PStr (attr_get_default enclosure ''type'' [])),
                   (''length'', PStr (attr_get_default enclosure ''length'' ''0''))])
         (findall_child item ''enclosure'')"

definition parse_hosts :: "element \<Rightarrow> pyval list" where
  "parse_hosts item =
     concat (map (\<lambda>person.
                    if attr_get_default person ''role'' [] = ''host''
                    then (case elem_text person of
                            Some person_name \<Rightarrow>
                              if person_name \<noteq> [] then [PStr (strip person_name)] else []
                          | None \<Rightarrow> [])
                    else [])
                 (findall_desc item (podcast_ns @ ''person'')))"

definition parse_transcripts :: "element \<Rightarrow> pydict list" where
  "parse_transcripts item =
     concat (map (\<lambda>transcript.
                    case attr_get transcript ''url'' of
                      Some transcript_url \<Rightarrow>
                        if transcript_url \<noteq> []
                        then [[(''url'', PStr transcript_url),
                               (''type'', PStr (attr_get_default transcript ''type'' [])),
                               (''language'', PStr (attr_get_default transcript ''language'' ''en-us''))]]
                        else []
                    | None \<Rightarrow> [])
                 (findall_desc item (podcast_ns @ ''transcript'')))"

text \<open>
  The dictionary is given with its keys in their final order: the twelve keys of the
  literal, then \<open>transcript_url\<close>, which is added last; \<open>chapters_url\<close> is overwritten
  in place.
\<close>

definition parse_episode :: "string \<Rightarrow> element \<Rightarrow> pydict" where
  "parse_episode show_name item =
     (let title_elem = find_child item ''title'';
          guid_elem = find_child item ''guid'';
          link_elem = find_child item ''link'';
          pubdate_elem = find_child item ''pubDate'';
          description_elem = find_child item ''description'';
          duration_elem = find_desc item (itunes_ns @ ''duration'');
          episode_num_elem = find_desc item (podcast_ns @ ''episode'');
          transcript_urls = parse_transcripts item;
          chapters_elem = find_desc item (podcast_ns @ ''chapters'')
      in [(''show_name'', PStr show_name),
          (''id'', py_or (get_text guid_elem) (get_text episode_num_elem)),
          (''episode_number'', get_text episode_num_elem),
          (''title'', get_text title_elem),
          (''description'', get_cdata_content description_elem),
          (''published_date'', get_text pubdate_elem),
          (''link'', get_text link_elem),
          (''duration'', get_text duration_elem),
          (''hosts'', PList (parse_hosts item)),
          (''transcript_urls'', PList (map PDict transcript_urls)),
          (''enclosures'', PList (parse_enclosures item)),
          (''chapters_url'',
             (case chapters_elem of
                Some c \<Rightarrow> (case attr_get c ''url'' of Some u \<Rightarrow> PStr u | None \<Rightarrow> PNone)
              | None \<Rightarrow> PNone)),
          (''transcript_url'',
             (case transcript_urls of
                t # _ \<Rightarrow> dict_get t ''url'' PNone
              | [] \<Rightarrow> PNone))])"

section \<open>The feed cache: \<open>PodcastRSSParser._get_feed\<close>\<close>

text \<open>
  The collaborators: reading a local file, an HTTP GET (with \<open>raise_for_status\<close>) and
  the XML parser. A read may answer differently each time; its first argument is the
  number of reads made before it. The parser object holds the configured feeds (show name
  to URL, in configured order) and the cache; \<open>fetch_log\<close> records the URL of every read
  of a collaborator, in order.
\<close>

record world =
  read_file :: "nat \<Rightarrow> string \<Rightarrow> exn + string"
  http_get :: "nat \<Rightarrow> string \<Rightarrow> exn + string"
  fromstring :: "string \<Rightarrow> exn + element"

record parser =
  feeds :: "(string \<times> string) list"
  cached_feeds :: "string \<rightharpoonup> element"
  fetch_log :: "string list"

definition fetch :: "world \<Rightarrow> nat \<Rightarrow> string \<Rightarrow> exn + string" where
  "fetch w t feed_url =
     (if startswith feed_url ''file://'' then read_file w t (drop 7 feed_url)
      else http_get w t feed_url)"

definition get_feed :: "world \<Rightarrow> string \<Rightarrow> parser \<Rightarrow> element option \<times> parser" where
  "get_feed w show_name self =
     (case map_of (feeds self) show_name of
        None \<Rightarrow> (None, self)
      | Some feed_url \<Rightarrow>
          (case cached_feeds self show_name of
             Some feed_root \<Rightarrow> (Some feed_root, self)
           | None \<Rightarrow>
               let self1 = self\<lparr>fetch_log := fetch_log self @ [feed_url]\<rparr>
               in case exn_bind (fetch w (length (fetch_log self)) feed_url) (fromstring w) of
                    Inl e \<Rightarrow> (None, self1)
                  | Inr feed_root \<Rightarrow>
                      (Some feed_root,
                       self1\<lparr>cached_feeds := (cached_feeds self1)(show_name \<mapsto> feed_root)\<rparr>)))"

definition get_shows :: "parser \<Rightarrow> string list" where
  "get_shows self = map fst (feeds self)"

section \<open>The query engine: \<open>PodcastRSSParser.search_episodes\<close>\<close>

text \<open>
  A parameter that is not given is \<open>None\<close>. The lines that \<open>_parse_date\<close> and
  \<open>_get_feed\<close> print while a search runs have no effect on its result and are not
  recorded here.
\<close>

definition str_truthy :: "string option \<Rightarrow> bool" where
  "str_truthy x = (case x of None \<Rightarrow> False | Some s \<Rightarrow> s \<noteq> [])"

definition list_truthy :: "'a list option \<Rightarrow> bool" where
  "list_truthy x = (case x of None \<Rightarrow> False | Some xs \<Rightarrow> xs \<noteq> [])"

text \<open>
  One date filter (lines 150 to 153 with \<open><\<close>, lines 155 to 158 with \<open>>\<close>): whether the
  episode is skipped.
\<close>

definition date_excludes ::
  "host \<Rightarrow> (datetime \<Rightarrow> datetime \<Rightarrow> exn + bool) \<Rightarrow> datetime option \<Rightarrow> pydict \<Rightarrow> exn + bool" where
  "date_excludes h cmp bound episode_data =
     (case bound of
        None \<Rightarrow> Inr False
      | Some bound_dt \<Rightarrow>
          (case dict_get episode_data ''published_date'' PNone of
             PStr published \<Rightarrow>
               if published = [] then Inr False
               else exn_bind (parse_date h published) (\<lambda>episode_dt.
                      case episode_dt of
                        None \<Rightarrow> Inr False
                      | Some dt \<Rightarrow> cmp dt bound_dt)
           | v \<Rightarrow> if truthy v then Inl (AttributeError ''object has no attribute strip'')
                  else Inr False))"

fun lower_all :: "pyval list \<Rightarrow> exn + string list" where
  "lower_all [] = Inr []"
| "lower_all (PStr s # vs) = exn_bind (lower_all vs) (\<lambda>r. Inr (lower s # r))"
| "lower_all (v # vs) = Inl (AttributeError ''object has no attribute lower'')"

definition py_lower :: "pyval \<Rightarrow> exn + string" where
  "py_lower v = (case v of PStr s \<Rightarrow> Inr (lower s)
                 | _ \<Rightarrow> Inl (AttributeError ''object has no attribute lower''))"

definition hosts_excludes :: "string list \<Rightarrow> pydict \<Rightarrow> exn + bool" where
  "hosts_excludes hosts episode_data =
     (case dict_get episode_data ''hosts'' (PList []) of
        PList episode_hosts \<Rightarrow>
          exn_bind (lower_all episode_hosts) (\<lambda>lowered.
            Inr (\<not> list_ex (\<lambda>host. lower host \<in> set lowered) hosts))
      | _ \<Rightarrow> Inl (TypeError ''object is not iterable''))"

definition text_excludes :: "string \<Rightarrow> pydict \<Rightarrow> exn + bool" where
  "text_excludes text_search episode_data =
     (let search_text = lower text_search
      in exn_bind (py_lower (dict_get episode_data ''title'' (PStr []))) (\<lambda>title.
         exn_bind (py_lower (dict_get episode_data ''description'' (PStr []))) (\<lambda>description.
           Inr (\<not> str_contains title search_text \<and> \<not> str_contains description search_text))))"

text \<open>The body of the loop over the items: whether the episode is appended to the results.\<close>

definition keep_episode ::
  "host \<Rightarrow> datetime option \<Rightarrow> datetime option \<Rightarrow> string list option \<Rightarrow> string option
     \<Rightarrow> pydict \<Rightarrow> exn + bool" where
  "keep_episode h since_dt before_dt hosts text_search episode_data =
     exn_bind (date_excludes h dt_lt since_dt episode_data) (\<lambda>too_early.
       if too_early then Inr False
       else exn_bind (date_excludes h dt_gt before_dt episode_data) (\<lambda>too_late.
         if too_late then Inr False
         else exn_bind (case hosts of
                          Some hs \<Rightarrow> if hs \<noteq> [] then hosts_excludes hs episode_data else Inr False
                        | None \<Rightarrow> Inr False) (\<lambda>no_host.
           if no_host then Inr False
           else exn_bind (case text_search of
                            Some t \<Rightarrow> if t \<noteq> [] then text_excludes t episode_data else Inr False
                          | None \<Rightarrow> Inr False) (\<lambda>no_text.
             Inr (\<not> no_text)))))"

fun filter_episodes :: "(pydict \<Rightarrow> exn + bool) \<Rightarrow> pydict list \<Rightarrow> exn + pydict list" where
  "filter_episodes keep [] = Inr []"
| "filter_episodes keep (episode_data # rest) =
     exn_bind (keep episode_data) (\<lambda>k.
       exn_bind (filter_episodes keep rest) (\<lambda>results.
         Inr (if k then episode_data # results else results)))"

fun search_shows ::
  "world \<Rightarrow> (pydict \<Rightarrow> exn + bool) \<Rightarrow> string list \<Rightarrow> parser \<Rightarrow> (exn + pydict list) \<times> parser" where
  "search_shows w keep [] self = (Inr [], self)"
| "search_shows w keep (show # shows) self =
     (case get_feed w show self of
        (None, self1) \<Rightarrow> search_shows w keep shows self1
      | (Some feed_root, self1) \<Rightarrow>
          (case filter_episodes keep (map (parse_episode show) (xpath_items feed_root)) of
             Inl e \<Rightarrow> (Inl e, self1)
           | Inr found \<Rightarrow>
               (case search_shows w keep shows self1 of
                  (Inl e, self2) \<Rightarrow> (Inl e, self2)
                | (Inr others, self2) \<Rightarrow> (Inr (found @ others), self2))))"

definition search_episodes ::
  "world \<Rightarrow> host \<Rightarrow> string option \<Rightarrow> string option \<Rightarrow> string option \<Rightarrow> string list option
     \<Rightarrow> string option \<Rightarrow> parser \<Rightarrow> (exn + pydict list) \<times> parser" where
  "search_episodes w h show_name since_date before_date hosts text_search self =
     (if \<not> (str_truthy show_name \<or> str_truthy since_date \<or> str_truthy before_date
             \<or> list_truthy hosts \<or> str_truthy text_search)
      then (Inl (ValueError ''At least one search parameter must be provided''), self)
      else
        let shows_to_search = (if str_truthy show_name then [the show_name] else get_shows self)
        in case (if str_truthy since_date then parse_date h (the since_date) else Inr None) of
             Inl e \<Rightarrow> (Inl e, self)
           | Inr since_dt \<Rightarrow>
               (case (if str_truthy before_date then parse_date h (the before_date) else Inr None) of
                  Inl e \<Rightarrow> (Inl e, self)
                | Inr before_dt \<Rightarrow>
                    search_shows w (keep_episode h since_dt before_dt hosts text_search)
                                 shows_to_search self))"

section \<open>Episode lookup: \<open>PodcastRSSParser.get_episode\<close>\<close>

definition text_equals :: "element option \<Rightarrow> string \<Rightarrow> bool" where
  "text_equals e s = (case e of Some el \<Rightarrow> elem_text el = Some s | None \<Rightarrow> False)"

fun scan_items :: "string \<Rightarrow> string \<Rightarrow> element list \<Rightarrow> pydict option" where
  "scan_items show_name episode_number [] = None"
| "scan_items show_name episode_number (item # items) =
     (if text_equals (find_child item ''guid'') episode_number
      then Some (parse_episode show_name item)
      else if text_equals (find_desc item (podcast_ns @ ''episode'')) episode_number
      then Some (parse_episode show_name item)
      else scan_items show_name episode_number items)"

definition get_episode :: "world \<Rightarrow> string \<Rightarrow> string \<Rightarrow> parser \<Rightarrow> pydict option \<times> parser" where
  "get_episode w show_name episode_number self =
     (case get_feed w show_name self of
        (None, self1) \<Rightarrow> (None, self1)
      | (Some feed_root, self1) \<Rightarrow>
          (scan_items show_name episode_number (xpath_items feed_root), self1))"

section \<open>The tool boundary: \<open>search_episodes\<close> of \<open>podcast_mcp/server.py\<close>\<close>

text \<open>
  The tool calls the parser's \<open>search_episodes\<close>, the method of the class
  \<open>PodcastRSSParser\<close> above, and cuts a page out of the results.
  \<open>xs[start:stop]\<close> is Python's slice: a negative index counts from the end, and both
  indices are clamped to the list.
\<close>

definition slice_index :: "int \<Rightarrow> int \<Rightarrow> int" where
  "slice_index n i = (if i < 0 then max 0 (i + n) else min i n)"

definition py_slice :: "'a list \<Rightarrow> int \<Rightarrow> int \<Rightarrow> 'a list" where
  "py_slice xs start stop =
     (let n = int (length xs);
          lo = slice_index n start;
          hi = slice_index n stop
      in take (nat (hi - lo)) (drop (nat lo) xs))"

definition tool_search_episodes ::
  "world \<Rightarrow> host \<Rightarrow> string option \<Rightarrow> string option \<Rightarrow> string option \<Rightarrow> string list option
     \<Rightarrow> string option \<Rightarrow> int \<Rightarrow> int \<Rightarrow> parser \<Rightarrow> pyval \<times> parser" where
  "tool_search_episodes w h show_name since_date before_date hosts text_search page per_page
                        rss_parser =
     (case search_episodes w h show_name since_date before_date hosts text_search rss_parser of
        (Inr results, rss_parser1) \<Rightarrow>
          (let total = int (length results);
               total_pages = (if per_page > 0 then (total + per_page - 1) div per_page else 0);
               start_idx = (page - 1) * per_page;
               end_idx = start_idx + per_page
           in (PDict [(''episodes'', PList (map PDict (py_slice results start_idx end_idx))),
                      (''pagination'',
                         PDict [(''total'', PInt total),
                                (''page'', PInt page),
                                (''per_page'', PInt per_page),
                                (''total_pages'', PInt total_pages)])],
               rss_parser1))
      | (Inl e, rss_parser1) \<Rightarrow>
          (if is_ValueError e then PDict [(''error'', PStr (exn_str e))]
           else PDict [(''error'', PStr (''Search failed: '' @ exn_str e))],
           rss_parser1))"

section \<open>Transcript lookup: \<open>PodcastRSSParser.get_transcript\<close>\<close>

definition get_transcript :: "world \<Rightarrow> string \<Rightarrow> string \<Rightarrow> parser \<Rightarrow> string option \<times> parser" where
  "get_transcript w show_name episode_number self =
     (case get_episode w show_name episode_number self of
        (None, self1) \<Rightarrow> (None, self1)
      | (Some episode, self1) \<Rightarrow>
          if episode = [] then (None, self1)
          else
            (case dict_get episode ''transcript_url'' PNone of
               PStr transcript_url \<Rightarrow>
                 if transcript_url = [] then (None, self1)
                 else
                   let self2 = self1\<lparr>fetch_log := fetch_log self1 @ [transcript_url]\<rparr>
                   in (case http_get w (length (fetch_log self1)) transcript_url of
                         Inl e \<Rightarrow> (None, self2)
                       | Inr body \<Rightarrow> (Some body, self2))
             | _ \<Rightarrow> (None, self1)))"

section \<open>Notions used to state the properties\<close>

text \<open>
  A process is a sequence of calls of the parser's methods on one parser object;
  \<open>run_calls\<close> gives the parser after them.
\<close>

datatype call =
    GetFeed string
  | SearchEpisodes "string option" "string option" "string option" "string list option"
                   "string option"
  | GetEpisode string string
  | GetTranscript string string

fun run_call :: "world \<Rightarrow> host \<Rightarrow> call \<Rightarrow> parser \<Rightarrow> parser" where
  "run_call w h (GetFeed show_name) self = snd (get_feed w show_name self)"
| "run_call w h (SearchEpisodes show_name since_date before_date hosts text_search) self =
     snd (search_episodes w h show_name since_date before_date hosts text_search self)"
| "run_call w h (GetEpisode show_name episode_number) self =
     snd (get_episode w show_name episode_number self)"
| "run_call w h (GetTranscript show_name episode_number) self =
     snd (get_transcript w show_name episode_number self)"

fun run_calls :: "world \<Rightarrow> host \<Rightarrow> call list \<Rightarrow> parser \<Rightarrow> parser" where
  "run_calls w h [] self = self"
| "run_calls w h (c # cs) self = run_calls w h cs (run_call w h c self)"

text \<open>The records of a list at the positions \<open>i\<close> with \<open>a \<le> i < b\<close>.\<close>

definition index_window :: "'a list \<Rightarrow> int \<Rightarrow> int \<Rightarrow> 'a list" where
  "index_window xs a b =
     map (\<lambda>i. xs ! i) (filter (\<lambda>i. a \<le> int i \<and> int i < b) [0 ..< length xs])"

text \<open>An entry matches a query by its unique id or by its episode number.\<close>

definition matches_guid :: "string \<Rightarrow> element \<Rightarrow> bool" where
  "matches_guid q item = text_equals (find_child item ''guid'') q"

definition matches_number :: "string \<Rightarrow> element \<Rightarrow> bool" where
  "matches_number q item = text_equals (find_desc item (podcast_ns @ ''episode'')) q"

text \<open>
  The extracted records of each show of a search, show by show in the order the shows
  are visited: the records of the show's document in document order, none for a show
  without a document.
\<close>

fun show_records :: "world \<Rightarrow> string list \<Rightarrow> parser \<Rightarrow> pydict list list" where
  "show_records w [] self = []"
| "show_records w (show # shows) self =
     (case get_feed w show self of
        (None, self1) \<Rightarrow> [] # show_records w shows self1
      | (Some feed_root, self1) \<Rightarrow>
          map (parse_episode show) (xpath_items feed_root) # show_records w shows self1)"

definition shows_to_search :: "string option \<Rightarrow> parser \<Rightarrow> string list" where
  "shows_to_search show_name self =
     (case show_name of
        Some s \<Rightarrow> if s \<noteq> [] then [s] else map fst (feeds self)
      | None \<Rightarrow> map fst (feeds self))"

text \<open>
  The bound a date parameter of a search stands for, and a record that satisfies all
  active filters of a search: one the loop body appends to the results.
\<close>

definition date_bound :: "host \<Rightarrow> string option \<Rightarrow> datetime option" where
  "date_bound h d =
     (if str_truthy d
      then (case parse_date h (the d) of Inr dt \<Rightarrow> dt | Inl e \<Rightarrow> None)
      else None)"

definition satisfies_filters ::
  "host \<Rightarrow> string option \<Rightarrow> string option \<Rightarrow> string list option \<Rightarrow> string option
     \<Rightarrow> pydict \<Rightarrow> bool" where
  "satisfies_filters h since_date before_date hosts text_search episode_data =
     (keep_episode h (date_bound h since_date) (date_bound h before_date) hosts text_search
                   episode_data = Inr True)"

section \<open>Sample hosts, feeds and parsers\<close>

definition host_utc :: host where
  "host_utc = \<lparr>tzname = (''UTC'', ''UTC''), daylight = False\<rparr>"

definition host_pacific :: host where
  "host_pacific = \<lparr>tzname = (''PST'', ''PDT''), daylight = True\<rparr>"

text \<open>
  A feed of two entries. The first has an empty \<open>title\<close> element, the unique id \<open>x\<close>
  and the episode number 5; the second has the unique id \<open>5\<close> and a publication date
  that is no date.
\<close>

definition item_a :: element where
  "item_a = Element ''item'' [] None
              [Element ''title'' [] None [],
               Element ''guid'' [] (Some ''x'') [],
               Element (podcast_ns @ ''episode'') [] (Some ''5'') []]"

definition item_b :: element where
  "item_b = Element ''item'' [] None
              [Element ''title'' [] (Some ''Second'') [],
               Element ''guid'' [] (Some ''5'') [],
               Element ''pubDate'' [] (Some ''soon'') []]"

definition sample_feed :: element where
  "sample_feed = Element ''rss'' [] None [Element ''channel'' [] None [item_a, item_b]]"

text \<open>A feed of twelve entries with the unique ids ep01 to ep12.\<close>

definition twelve_feed :: element where
  "twelve_feed =
     Element ''rss'' [] None
       [Element ''channel'' [] None
          (map (\<lambda>g. Element ''item'' [] None [Element ''guid'' [] (Some g) []])
               [''ep01'', ''ep02'', ''ep03'', ''ep04'', ''ep05'', ''ep06'',
                ''ep07'', ''ep08'', ''ep09'', ''ep10'', ''ep11'', ''ep12''])]"

definition twelve_records :: "pydict list" where
  "twelve_records = map (parse_episode ''Show'') (xpath_items twelve_feed)"

text \<open>
  A world whose network answers every request and whose XML parser yields the given
  document; a world whose first request times out and whose later requests succeed.
\<close>

definition world_of :: "element \<Rightarrow> world" where
  "world_of doc =
     \<lparr>read_file = (\<lambda>t path. Inl (IOError ''No such file or directory'')),
      http_get = (\<lambda>t url. Inr ''<rss/>''),
      fromstring = (\<lambda>content. Inr doc)\<rparr>"

definition flaky_world :: "element \<Rightarrow> world" where
  "flaky_world doc =
     \<lparr>read_file = (\<lambda>t path. Inl (IOError ''No such file or directory'')),
      http_get = (\<lambda>t url. if t = 0 then Inl (IOError ''timed out'') else Inr ''<rss/>''),
      fromstring = (\<lambda>content. Inr doc)\<rparr>"

definition new_parser :: "(string \<times> string) list \<Rightarrow> parser" where
  "new_parser fs = \<lparr>feeds = fs, cached_feeds = Map.empty, fetch_log = []\<rparr>"

definition one_show :: parser where
  "one_show = new_parser [(''Show'', ''https://example.com/feed.rss'')]"

section \<open>Auxiliary facts\<close>

lemma exn_bind_Inl:
  "exn_bind m f = Inl e \<Longrightarrow> m = Inl e \<or> (\<exists>x. m = Inr x \<and> f x = Inl e)"
  by (cases m) (simp_all add: exn_bind_def)

lemma filter_upt_window:
  "filter (\<lambda>i. int a \<le> int i \<and> int i < int b) [0 ..< n] = [a ..< min b n]"
proof (induction n)
  case 0 show ?case by simp
next
  case (Suc n)
  show ?case
  proof (cases "a \<le> n \<and> n < b")
    case True
    then have "min b (Suc n) = Suc n" "min b n = n" by auto
    with True Suc show ?thesis by simp
  next
    case False
    then have "[a ..< min b (Suc n)] = [a ..< min b n]" by (auto simp: min_def)
    with False Suc show ?thesis by auto
  qed
qed

lemma index_window_nat:
  "index_window xs (int a) (int a + int k) = take k (drop a xs)"
proof -
  have "index_window xs (int a) (int (a + k)) = map (\<lambda>i. xs ! i) [a ..< min (a + k) (length xs)]"
    unfolding index_window_def using filter_upt_window[of a "a + k" "length xs"] by simp
  also have "\<dots> = take k (drop a xs)"
    by (rule nth_equalityI) (auto simp: min_def split: if_splits)
  finally show ?thesis by simp
qed

lemma index_window_nonneg:
  assumes "0 \<le> a" "0 \<le> k"
  shows "index_window xs a (a + k) = take (nat k) (drop (nat a) xs)"
  using index_window_nat[of xs "nat a" "nat k"] assms by simp

lemma py_slice_nonneg:
  assumes "0 \<le> start" "0 \<le> len"
  shows "py_slice xs start (start + len) = take (nat len) (drop (nat start) xs)"
proof (cases "start \<le> int (length xs)")
  case True
  with assms show ?thesis
    by (auto simp: py_slice_def slice_index_def Let_def min_def intro!: take_all)
next
  case False
  with assms show ?thesis
    by (auto simp: py_slice_def slice_index_def Let_def min_def)
qed

lemma py_slice_low_page:
  assumes "page < 1" "0 < per_page"
  shows "py_slice xs ((page - 1) * per_page) ((page - 1) * per_page + per_page) =
           (if page = 0 then []
            else take (nat (max 0 (int (length xs) + page * per_page)
                            - max 0 (int (length xs) + (page - 1) * per_page)))
                      (drop (nat (max 0 (int (length xs) + (page - 1) * per_page))) xs))"
proof -
  have e: "(page - 1) * per_page + per_page = page * per_page" by (simp add: algebra_simps)
  have s: "(page - 1) * per_page < 0" using assms by (simp add: mult_neg_pos)
  show ?thesis
  proof (cases "page = 0")
    case True
    then show ?thesis using assms by (simp add: py_slice_def slice_index_def Let_def)
  next
    case False
    then have "page * per_page < 0" using assms by (simp add: mult_neg_pos)
    with s False show ?thesis
      unfolding e by (simp add: py_slice_def slice_index_def Let_def add.commute)
  qed
qed

lemma py_slice_negative_per_page:
  assumes "1 \<le> page" "per_page < 0"
  shows "py_slice xs ((page - 1) * per_page) ((page - 1) * per_page + per_page) =
           take (nat (max 0 (int (length xs) + page * per_page)
                      - (if page = 1 then 0 else max 0 (int (length xs) + (page - 1) * per_page))))
                (drop (nat (if page = 1 then 0
                            else max 0 (int (length xs) + (page - 1) * per_page))) xs)"
proof -
  have e: "(page - 1) * per_page + per_page = page * per_page" by (simp add: algebra_simps)
  have n: "page * per_page < 0" using assms by (simp add: mult_pos_neg)
  show ?thesis
  proof (cases "page = 1")
    case True
    then show ?thesis using assms n by (simp add: py_slice_def slice_index_def Let_def add.commute)
  next
    case False
    then have "(page - 1) * per_page < 0" using assms by (simp add: mult_pos_neg)
    with False n show ?thesis
      unfolding e by (simp add: py_slice_def slice_index_def Let_def add.commute)
  qed
qed

text \<open>Python's \<open>(total + per_page - 1) // per_page\<close> is the ceiling of the quotient.\<close>

lemma ceil_div:
  assumes "0 < (b::int)"
  shows "(a + b - 1) div b = \<lceil>of_int a / (of_int b :: real)\<rceil>"
proof -
  define z where "z = (a + b - 1) div b"
  define r where "r = (a + b - 1) mod b"
  have split: "a + b - 1 = z * b + r" by (simp add: z_def r_def)
  have r: "0 \<le> r" "r < b" using assms by (simp_all add: r_def)
  have up: "a \<le> z * b" using split r by linarith
  have lo: "(z - 1) * b < a" using split r by (simp add: algebra_simps)
  have "of_int a \<le> (of_int (z * b) :: real)" using up by (simp only: of_int_le_iff)
  then have 1: "of_int a / of_int b \<le> (of_int z :: real)"
    using assms by (simp add: field_simps)
  have "(of_int ((z - 1) * b) :: real) < of_int a" using lo by (simp only: of_int_less_iff)
  then have 2: "(of_int z :: real) - 1 < of_int a / of_int b"
    using assms by (simp add: field_simps)
  have "\<lceil>of_int a / (of_int b :: real)\<rceil> = z"
    by (rule ceiling_unique) (use 1 2 in auto)
  then show ?thesis by (simp add: z_def)
qed

lemma tool_search_ok:
  assumes "search_episodes w h sn sd bd hs ts p = (Inr results, p')"
  shows "tool_search_episodes w h sn sd bd hs ts page per_page p =
           (PDict [(''episodes'',
                      PList (map PDict (py_slice results ((page - 1) * per_page)
                                                 ((page - 1) * per_page + per_page)))),
                   (''pagination'',
                      PDict [(''total'', PInt (int (length results))),
                             (''page'', PInt page),
                             (''per_page'', PInt per_page),
                             (''total_pages'',
                                PInt (if per_page > 0
                                      then (int (length results) + per_page - 1) div per_page
                                      else 0))])],
            p')"
  using assms by (simp add: tool_search_episodes_def Let_def)

text \<open>The searches of the sample feeds, evaluated.\<close>

lemma twelve_search:
  "fst (search_episodes (world_of twelve_feed) host_utc (Some ''Show'') None None None None
          one_show) = Inr twelve_records"
  by code_simp

lemma twelve_length: "length twelve_records = 12"
  by code_simp

section \<open>Pagination at the tool boundary\<close>

text \<open>
  C5, as amended. When the search yields the result list \<open>results\<close> and \<open>page \<ge> 1\<close>, the
  tool returns \<open>total = length results\<close>, the page and page size as given, and
  \<open>total_pages\<close> equal to the ceiling of \<open>total / per_page\<close> when \<open>per_page > 0\<close> and to 0
  otherwise. The episodes window is Python's slice of the results from
  \<open>(page - 1) * per_page\<close> to \<open>(page - 1) * per_page + per_page\<close>. When \<open>per_page \<ge> 0\<close>
  it consists of the records at the positions from \<open>(page - 1) * per_page\<close> up to but
  excluding \<open>(page - 1) * per_page + per_page\<close>, and it is empty when the page starts
  past the end. When \<open>per_page < 0\<close> the end index \<open>page * per_page\<close> is negative and
  counts from the end of the list, as does the start index when \<open>page > 1\<close>: with \<open>n\<close>
  results the window holds the records at the positions from \<open>lo\<close> up to but excluding
  \<open>max 0 (n + page * per_page)\<close>, where \<open>lo\<close> is 0 for \<open>page = 1\<close> and
  \<open>max 0 (n + (page - 1) * per_page)\<close> otherwise.
\<close>

theorem pagination_window:
  assumes "search_episodes w h sn sd bd hs ts p = (Inr results, p')"
    and "1 \<le> page"
  shows "\<exists>window.
           tool_search_episodes w h sn sd bd hs ts page per_page p =
             (PDict [(''episodes'', PList (map PDict window)),
                     (''pagination'',
                        PDict [(''total'', PInt (int (length results))),
                               (''page'', PInt page),
                               (''per_page'', PInt per_page),
                               (''total_pages'',
                                  PInt (if 0 < per_page
                                        then \<lceil>real (length results) / real_of_int per_page\<rceil>
                                        else 0))])],
              p')
           \<and> window = py_slice results ((page - 1) * per_page)
                                   ((page - 1) * per_page + per_page)
           \<and> (0 \<le> per_page \<longrightarrow>
                window = index_window results ((page - 1) * per_page)
                                      ((page - 1) * per_page + per_page))
           \<and> (0 \<le> per_page \<and> int (length results) \<le> (page - 1) * per_page \<longrightarrow> window = [])
           \<and> (per_page < 0 \<longrightarrow>
                window =
                  take (nat (max 0 (int (length results) + page * per_page)
                             - (if page = 1 then 0
                                else max 0 (int (length results) + (page - 1) * per_page))))
                       (drop (nat (if page = 1 then 0
                                   else max 0 (int (length results) + (page - 1) * per_page)))
                             results))"
proof -
  let ?start = "(page - 1) * per_page"
  let ?window = "py_slice results ?start (?start + per_page)"
  have tp: "(if per_page > 0 then (int (length results) + per_page - 1) div per_page else 0)
          = (if 0 < per_page then \<lceil>real (length results) / real_of_int per_page\<rceil> else 0)"
    using ceil_div[of per_page "int (length results)"] by simp
  have res: "tool_search_episodes w h sn sd bd hs ts page per_page p =
             (PDict [(''episodes'', PList (map PDict ?window)),
                     (''pagination'',
                        PDict [(''total'', PInt (int (length results))),
                               (''page'', PInt page),
                               (''per_page'', PInt per_page),
                               (''total_pages'',
                                  PInt (if 0 < per_page
                                        then \<lceil>real (length results) / real_of_int per_page\<rceil>
                                        else 0))])],
              p')"
    using tool_search_ok[OF assms(1), of page per_page] tp by simp
  have win: "?window = index_window results ?start (?start + per_page)" if "0 \<le> per_page"
  proof -
    have "0 \<le> ?start" using assms(2) that by simp
    then show ?thesis
      using that by (simp add: py_slice_nonneg index_window_nonneg)
  qed
  have empty: "?window = []" if "0 \<le> per_page" "int (length results) \<le> ?start"
  proof -
    have "0 \<le> ?start" using assms(2) that by simp
    then have "?window = take (nat per_page) (drop (nat ?start) results)"
      using that by (simp add: py_slice_nonneg)
    moreover have "length results \<le> nat ?start" using that(2) by linarith
    ultimately show ?thesis by simp
  qed
  have neg: "?window =
                  take (nat (max 0 (int (length results) + page * per_page)
                             - (if page = 1 then 0
                                else max 0 (int (length results) + (page - 1) * per_page))))
                       (drop (nat (if page = 1 then 0
                                   else max 0 (int (length results) + (page - 1) * per_page)))
                             results)" if "per_page < 0"
    using py_slice_negative_per_page[OF assms(2) that, of results] .
  show ?thesis
  proof (intro exI[of _ ?window] conjI impI)
    show "tool_search_episodes w h sn sd bd hs ts page per_page p =
             (PDict [(''episodes'', PList (map PDict ?window)),
                     (''pagination'',
                        PDict [(''total'', PInt (int (length results))),
                               (''page'', PInt page),
                               (''per_page'', PInt per_page),
                               (''total_pages'',
                                  PInt (if 0 < per_page
                                        then \<lceil>real (length results) / real_of_int per_page\<rceil>
                                        else 0))])],
              p')"
      by (rule res)
    show "?window = py_slice results ?start (?start + per_page)" by simp
    show "?window = index_window results ?start (?start + per_page)" if "0 \<le> per_page"
      using that by (rule win)
    show "?window = []" if "0 \<le> per_page \<and> int (length results) \<le> ?start"
      using that empty by blast
    show "?window =
                  take (nat (max 0 (int (length results) + page * per_page)
                             - (if page = 1 then 0
                                else max 0 (int (length results) + (page - 1) * per_page))))
                       (drop (nat (if page = 1 then 0
                                   else max 0 (int (length results) + (page - 1) * per_page)))
                             results)" if "per_page < 0"
      using that by (rule neg)
  qed
qed

text \<open>
  Twelve matching records and \<open>per_page = 5\<close>: three pages, page 3 holds the last two
  records and page 4 is empty. With \<open>page = 1\<close> and \<open>per_page = -5\<close> the window holds
  the first seven records and no pages are reported.
\<close>

theorem pagination_window_witness:
  "search_episodes (world_of twelve_feed) host_utc (Some ''Show'') None None None None one_show
     = (Inr twelve_records,
        snd (search_episodes (world_of twelve_feed) host_utc (Some ''Show'') None None None None
               one_show))
   \<and> (1::int) \<le> 3
   \<and> fst (tool_search_episodes (world_of twelve_feed) host_utc (Some ''Show'') None None None None
            3 5 one_show)
       = PDict [(''episodes'', PList (map PDict (drop 10 twelve_records))),
                (''pagination'',
                   PDict [(''total'', PInt 12), (''page'', PInt 3), (''per_page'', PInt 5),
                          (''total_pages'', PInt 3)])]
   \<and> length (drop 10 twelve_records) = 2
   \<and> fst (tool_search_episodes (world_of twelve_feed) host_utc (Some ''Show'') None None None None
            4 5 one_show)
       = PDict [(''episodes'', PList []),
                (''pagination'',
                   PDict [(''total'', PInt 12), (''page'', PInt 4), (''per_page'', PInt 5),
                          (''total_pages'', PInt 3)])]
   \<and> (1::int) \<le> 1 \<and> (- 5::int) < 0
   \<and> fst (tool_search_episodes (world_of twelve_feed) host_utc (Some ''Show'') None None None None
            1 (- 5) one_show)
       = PDict [(''episodes'', PList (map PDict (take 7 twelve_records))),
                (''pagination'',
                   PDict [(''total'', PInt 12), (''page'', PInt 1), (''per_page'', PInt (- 5)),
                          (''total_pages'', PInt 0)])]"
proof -
  let ?s = "search_episodes (world_of twelve_feed) host_utc (Some ''Show'') None None None None
              one_show"
  have h: "?s = (Inr twelve_records, snd ?s)"
    using twelve_search by (metis prod.collapse)
  have c: "\<lceil>real 12 / real_of_int 5\<rceil> = 3" by simp
  from pagination_window[OF h, of 1 "- 5"] twelve_length
  have n5: "fst (tool_search_episodes (world_of twelve_feed) host_utc (Some ''Show'') None None
                   None None 1 (- 5) one_show)
            = PDict [(''episodes'', PList (map PDict (take 7 twelve_records))),
                     (''pagination'',
                        PDict [(''total'', PInt 12), (''page'', PInt 1), (''per_page'', PInt (- 5)),
                               (''total_pages'', PInt 0)])]"
    by auto
  have w3: "index_window twelve_records ((3 - 1) * 5) ((3 - 1) * 5 + 5) = drop 10 twelve_records"
    using index_window_nonneg[of 10 5 twelve_records] twelve_length by simp
  from pagination_window[OF h, of 3 5] w3 c twelve_length
  have p3: "fst (tool_search_episodes (world_of twelve_feed) host_utc (Some ''Show'') None None
                   None None 3 5 one_show)
            = PDict [(''episodes'', PList (map PDict (drop 10 twelve_records))),
                     (''pagination'',
                        PDict [(''total'', PInt 12), (''page'', PInt 3), (''per_page'', PInt 5),
                               (''total_pages'', PInt 3)])]"
    by auto
  from pagination_window[OF h, of 4 5] c twelve_length
  have p4: "fst (tool_search_episodes (world_of twelve_feed) host_utc (Some ''Show'') None None
                   None None 4 5 one_show)
            = PDict [(''episodes'', PList []),
                     (''pagination'',
                        PDict [(''total'', PInt 12), (''page'', PInt 4), (''per_page'', PInt 5),
                               (''total_pages'', PInt 3)])]"
    by auto
  show ?thesis using h p3 p4 n5 twelve_length by simp
qed

text \<open>
  The claim as stated fails for a negative page size: with two results, \<open>page = 1\<close> and
  \<open>per_page = -1\<close> the window holds the first record, while no position lies in the
  index interval from 0 to -1.
\<close>

theorem pagination_window_counterexample:
  "fst (search_episodes (world_of sample_feed) host_utc (Some ''Show'') None None None None
          one_show)
     = Inr [parse_episode ''Show'' item_a, parse_episode ''Show'' item_b]
   \<and> fst (tool_search_episodes (world_of sample_feed) host_utc (Some ''Show'') None None None None
            1 (- 1) one_show)
       = PDict [(''episodes'', PList [PDict (parse_episode ''Show'' item_a)]),
                (''pagination'',
                   PDict [(''total'', PInt 2), (''page'', PInt 1), (''per_page'', PInt (- 1)),
                          (''total_pages'', PInt 0)])]
   \<and> index_window [parse_episode ''Show'' item_a, parse_episode ''Show'' item_b]
                   ((1 - 1) * (- 1)) ((1 - 1) * (- 1) + (- 1)) = []"
  by code_simp

text \<open>
  C10, as amended. With a result list of \<open>n\<close> records, \<open>per_page > 0\<close> and \<open>page < 1\<close> the
  start index \<open>(page - 1) * per_page\<close> is negative and the end index is \<open>page * per_page\<close>.
  For \<open>page = 0\<close> the end index is 0 and the window is empty. For \<open>page \<le> -1\<close> both
  indices count from the end of the list: the window holds the records at the positions
  from \<open>max 0 (n + (page - 1) * per_page)\<close> up to but excluding
  \<open>max 0 (n + page * per_page)\<close>. The pagination reports the page as given, and the call
  is no error.
\<close>

theorem low_page_window:
  assumes "search_episodes w h sn sd bd hs ts p = (Inr results, p')"
    and "page < 1" and "0 < per_page"
  shows "(page - 1) * per_page < 0
       \<and> tool_search_episodes w h sn sd bd hs ts page per_page p =
           (PDict [(''episodes'',
                      PList (map PDict
                        (if page = 0 then []
                         else take (nat (max 0 (int (length results) + page * per_page)
                                         - max 0 (int (length results) + (page - 1) * per_page)))
                                   (drop (nat (max 0 (int (length results) + (page - 1) * per_page)))
                                         results)))),
                   (''pagination'',
                      PDict [(''total'', PInt (int (length results))),
                             (''page'', PInt page),
                             (''per_page'', PInt per_page),
                             (''total_pages'',
                                PInt ((int (length results) + per_page - 1) div per_page))])],
            p')"
proof -
  have "(page - 1) * per_page < 0" using assms(2,3) by (simp add: mult_neg_pos)
  moreover have "tool_search_episodes w h sn sd bd hs ts page per_page p =
           (PDict [(''episodes'',
                      PList (map PDict
                        (if page = 0 then []
                         else take (nat (max 0 (int (length results) + page * per_page)
                                         - max 0 (int (length results) + (page - 1) * per_page)))
                                   (drop (nat (max 0 (int (length results) + (page - 1) * per_page)))
                                         results)))),
                   (''pagination'',
                      PDict [(''total'', PInt (int (length results))),
                             (''page'', PInt page),
                             (''per_page'', PInt per_page),
                             (''total_pages'',
                                PInt ((int (length results) + per_page - 1) div per_page))])],
            p')"
    using tool_search_ok[OF assms(1), of page per_page] py_slice_low_page[OF assms(2,3), of results]
          assms(3)
    by simp
  ultimately show ?thesis by simp
qed

text \<open>
  Twelve records and \<open>per_page = 5\<close>: page 0 is empty, page -1 holds the records at the
  positions 2 to 6.
\<close>

theorem low_page_window_witness:
  "search_episodes (world_of twelve_feed) host_utc (Some ''Show'') None None None None one_show
     = (Inr twelve_records,
        snd (search_episodes (world_of twelve_feed) host_utc (Some ''Show'') None None None None
               one_show))
   \<and> (0::int) < 1 \<and> (- 1::int) < 1 \<and> (0::int) < 5
   \<and> fst (tool_search_episodes (world_of twelve_feed) host_utc (Some ''Show'') None None None None
            0 5 one_show)
       = PDict [(''episodes'', PList []),
                (''pagination'',
                   PDict [(''total'', PInt 12), (''page'', PInt 0), (''per_page'', PInt 5),
                          (''total_pages'', PInt 3)])]
   \<and> fst (tool_search_episodes (world_of twelve_feed) host_utc (Some ''Show'') None None None None
            (- 1) 5 one_show)
       = PDict [(''episodes'', PList (map PDict (take 5 (drop 2 twelve_records)))),
                (''pagination'',
                   PDict [(''total'', PInt 12), (''page'', PInt (- 1)), (''per_page'', PInt 5),
                          (''total_pages'', PInt 3)])]"
proof -
  let ?s = "search_episodes (world_of twelve_feed) host_utc (Some ''Show'') None None None None
              one_show"
  have h: "?s = (Inr twelve_records, snd ?s)"
    using twelve_search by (metis prod.collapse)
  have a: "(0::int) < 1" and b: "(- 1::int) < 1" and c: "(0::int) < 5" by simp_all
  show ?thesis
    using h low_page_window[OF h a c] low_page_window[OF h b c] twelve_length by simp
qed

text \<open>
  The claim as stated fails at its own example: with twelve records, \<open>page = 0\<close> and
  \<open>per_page = 5\<close> the window is empty, not the last five records.
\<close>

theorem low_page_window_counterexample:
  "fst (search_episodes (world_of twelve_feed) host_utc (Some ''Show'') None None None None
          one_show) = Inr twelve_records
   \<and> length twelve_records = 12
   \<and> fst (tool_search_episodes (world_of twelve_feed) host_utc (Some ''Show'') None None None None
            0 5 one_show)
       = PDict [(''episodes'', PList []),
                (''pagination'',
                   PDict [(''total'', PInt 12), (''page'', PInt 0), (''per_page'', PInt 5),
                          (''total_pages'', PInt 3)])]
   \<and> length (drop (12 - 5) twelve_records) = 5"
  by code_simp

section \<open>A search without parameters\<close>

text \<open>
  C6. A search in which none of the five filter parameters is present raises the
  ValueError "At least one search parameter must be provided" in the engine, without
  touching the parser, and the tool returns it as an error value with that message.
\<close>

theorem search_without_parameters:
  "search_episodes w h None None None None None p
     = (Inl (ValueError ''At least one search parameter must be provided''), p)
   \<and> tool_search_episodes w h None None None None None page per_page p
     = (PDict [(''error'', PStr ''At least one search parameter must be provided'')], p)"
  by (simp add: search_episodes_def tool_search_episodes_def str_truthy_def list_truthy_def)

section \<open>The date normalizer\<close>

text \<open>Every exception that leaves \<open>strptime\<close> is a ValueError.\<close>

lemma py_int_err: "py_int s = Inl e \<Longrightarrow> is_ValueError e"
  by (auto simp: py_int_def Let_def split: if_splits)

lemma mk_datetime_err: "mk_datetime y m d hh mm ss us tz = Inl e \<Longrightarrow> is_ValueError e"
  by (auto simp: mk_datetime_def split: if_splits)

lemma mk_timezone_err: "mk_timezone g f = Inl e \<Longrightarrow> is_ValueError e"
  by (auto simp: mk_timezone_def Let_def split: if_splits)

lemma convert_z_err: "convert_z z = Inl e \<Longrightarrow> is_ValueError e"
  unfolding convert_z_def Let_def
  by (auto split: if_splits dest!: exn_bind_Inl dest: py_int_err)

lemma convert_group_err: "convert_group t kv = Inl e \<Longrightarrow> is_ValueError e"
  unfolding convert_group_def Let_def
  by (auto split: if_splits dest!: exn_bind_Inl dest: py_int_err convert_z_err)

lemma convert_groups_err: "convert_groups t kvs = Inl e \<Longrightarrow> is_ValueError e"
proof (induction kvs arbitrary: t)
  case Nil
  then show ?case by simp
next
  case (Cons kv kvs)
  from Cons.prems
  have "convert_group t kv = Inl e
        \<or> (\<exists>t'. convert_group t kv = Inr t' \<and> convert_groups t' kvs = Inl e)"
    by (auto dest: exn_bind_Inl)
  then show ?case using Cons.IH convert_group_err by blast
qed

lemma strptime_err: "strptime h s fmt = Inl e \<Longrightarrow> is_ValueError e"
  unfolding strptime_def
  by (auto split: list.splits if_splits option.splits prod.splits
           dest!: exn_bind_Inl dest: convert_groups_err mk_timezone_err mk_datetime_err)

lemma try_formats_total: "\<exists>r. fst (try_formats h s fmts) = Inr r"
proof (induction fmts)
  case Nil
  show ?case by simp
next
  case (Cons fmt fmts)
  show ?case
  proof (cases "strptime h s fmt")
    case (Inl e)
    then have "is_ValueError e" by (rule strptime_err)
    with Inl Cons show ?thesis by (auto split: prod.splits)
  next
    case (Inr dt)
    then show ?thesis by simp
  qed
qed

lemma fallback_date_total: "\<exists>r. fallback_date s = Inr r"
  unfolding fallback_date_def
  by (auto split: option.splits sum.splits prod.splits
           dest!: exn_bind_Inl dest: py_int_err mk_datetime_err)

lemma parse_date_io_total: "\<exists>r. fst (parse_date_io h s) = Inr r"
proof (cases "s = []")
  case True
  then show ?thesis by (simp add: parse_date_io_def)
next
  case False
  define d where "d = (if ends_with_offset (strip s) then re_sub_offset (strip s) else strip s)"
  obtain x ev where tf: "try_formats h d formats = (x, ev)" by (cases "try_formats h d formats")
  obtain r where r: "x = Inr r" using try_formats_total[of h d formats] tf by auto
  obtain r' where r': "fallback_date d = Inr r'" using fallback_date_total by blast
  show ?thesis
    using False tf r r'
    by (auto simp: parse_date_io_def Let_def d_def[symmetric] split: option.splits)
qed

lemma parse_date_total: "\<exists>r. parse_date h s = Inr r"
  using parse_date_io_total[of h s] by (simp add: parse_date_def)

text \<open>A string of whitespace only is empty once stripped, and no format matches the
  empty string, whatever the host's time zone names.\<close>

lemma strip_whitespace: "list_all re_s s \<Longrightarrow> strip s = []"
  by (auto simp: strip_def list_all_iff dest: set_dropWhileD)

lemma seqToRE_Nil: "[] \<notin> set names \<Longrightarrow> seqToRE names [] = []"
  by (auto simp: seqToRE_def)

lemma strptime_empty:
  "fmt \<in> set formats \<Longrightarrow> \<exists>m. strptime h [] fmt = Inl (ValueError m)"
  by (auto simp: formats_def strptime_def re_s_def rx_directive_def seqToRE_Nil a_weekday_def
                 a_month_def rx_Y_def rx_d_def rx1_def rx2_def)

lemma try_formats_all_fail:
  "(\<And>fmt. fmt \<in> set fmts \<Longrightarrow> \<exists>m. strptime h s fmt = Inl (ValueError m)) \<Longrightarrow>
   try_formats h s fmts = (Inr None, map (Strptime s) fmts)"
proof (induction fmts)
  case Nil
  show ?case by simp
next
  case (Cons fmt fmts)
  obtain m where "strptime h s fmt = Inl (ValueError m)" using Cons.prems by auto
  moreover have "try_formats h s fmts = (Inr None, map (Strptime s) fmts)"
    using Cons by simp
  ultimately show ?case by simp
qed

lemma whitespace_trace:
  assumes "s \<noteq> []" "list_all re_s s"
  shows "parse_date_io h s =
           (Inr None, map (Strptime []) formats @ [Print ''Warning: Could not parse date: ''])"
proof -
  have 1: "strip s = []" using assms(2) by (rule strip_whitespace)
  have 2: "try_formats h [] formats = (Inr None, map (Strptime []) formats)"
    by (rule try_formats_all_fail) (rule strptime_empty)
  have 3: "fallback_date [] = Inr None" by (simp add: fallback_date_def)
  have 4: "\<not> ends_with_offset []" by (simp add: ends_with_offset_def)
  show ?thesis using assms(1) 1 2 3 4 by (simp add: parse_date_io_def)
qed

text \<open>
  C9, as amended. For every input string and every host the date normalizer returns a
  value or no value and never raises. The empty string returns no value at once: no
  format is tried and nothing is printed. A non-empty string of whitespace only also
  returns no value, but after \<open>strptime\<close> has been called on the stripped (empty) string
  with each of the ten formats, the fallback has found nothing, and the warning has been
  printed.
\<close>

theorem date_normalizer_never_raises:
  "(\<exists>r. parse_date h s = Inr r)
   \<and> parse_date_io h [] = (Inr None, [])
   \<and> (s \<noteq> [] \<and> list_all re_s s \<longrightarrow>
        parse_date_io h s =
          (Inr None, map (Strptime []) formats @ [Print ''Warning: Could not parse date: '']))"
  using parse_date_total[of h s] whitespace_trace[of s h]
  by (simp add: parse_date_io_def)

theorem date_normalizer_never_raises_witness:
  "''  '' \<noteq> [] \<and> list_all re_s ''  ''
   \<and> (\<exists>r. parse_date host_utc ''  '' = Inr r)
   \<and> parse_date_io host_utc ''  '' =
        (Inr None, map (Strptime []) formats @ [Print ''Warning: Could not parse date: ''])"
proof -
  have a: "''  '' \<noteq> [] \<and> list_all re_s ''  ''" by (simp add: re_s_def)
  show ?thesis using a date_normalizer_never_raises[of host_utc "''  ''"] by blast
qed

text \<open>
  The claim as stated fails for whitespace-only input: on a single space all ten
  formats are tried and the warning is printed.
\<close>

theorem date_normalizer_whitespace_counterexample:
  "list_all re_s '' ''
   \<and> parse_date_io host_utc '' '' =
       (Inr None,
        [Strptime [] ''%a, %d %b %Y %H:%M:%S %z'',
         Strptime [] ''%a, %d %b %Y %H:%M:%S %Z'',
         Strptime [] ''%a, %d %b %Y %H:%M:%S'',
         Strptime [] ''%Y-%m-%dT%H:%M:%S%z'',
         Strptime [] ''%Y-%m-%dT%H:%M:%SZ'',
         Strptime [] ''%Y-%m-%dT%H:%M:%S'',
         Strptime [] ''%Y-%m-%d %H:%M:%S'',
         Strptime [] ''%Y-%m-%d'',
         Strptime [] ''%d %b %Y %H:%M:%S %z'',
         Strptime [] ''%d %b %Y'',
         Print ''Warning: Could not parse date: ''])"
  by code_simp

text \<open>
  C2, the named-zone layout. The string of the source's own comment on the second format,
  \<open>Sun, 05 Oct 2025 19:25:37 PDT\<close>, encodes the instant \<open>2025-10-06 02:25:37 UTC\<close>, the
  one the numeric form \<open>-0700\<close> yields. On a host in UTC \<open>%Z\<close> does not accept \<open>PDT\<close>, no
  format matches and the fallback keeps the date only; on a host in Pacific time the
  format matches but the zone is dropped and the wall-clock time is taken as UTC. Neither
  result is the encoded instant.
\<close>

theorem named_zone_not_normalized:
  "parse_date host_utc ''Sun, 05 Oct 2025 19:25:37 PDT''
     = Inr (Some \<lparr>year = 2025, month = 10, day = 5, hour = 0, minute = 0, second = 0,
                  microsecond = 0, tzinfo = Some 0\<rparr>)
   \<and> parse_date host_pacific ''Sun, 05 Oct 2025 19:25:37 PDT''
     = Inr (Some \<lparr>year = 2025, month = 10, day = 5, hour = 19, minute = 25, second = 37,
                  microsecond = 0, tzinfo = Some 0\<rparr>)
   \<and> parse_date host_utc ''Sun, 05 Oct 2025 19:25:37 -0700''
     = Inr (Some \<lparr>year = 2025, month = 10, day = 5, hour = 19, minute = 25, second = 37,
                  microsecond = 0, tzinfo = Some (- 25200000000)\<rparr>)
   \<and> dt_cmp (\<lambda>x y. x = y)
        \<lparr>year = 2025, month = 10, day = 5, hour = 19, minute = 25, second = 37,
         microsecond = 0, tzinfo = Some (- 25200000000)\<rparr>
        \<lparr>year = 2025, month = 10, day = 6, hour = 2, minute = 25, second = 37,
         microsecond = 0, tzinfo = Some 0\<rparr> = Inr True
   \<and> dt_cmp (\<lambda>x y. x = y)
        \<lparr>year = 2025, month = 10, day = 5, hour = 0, minute = 0, second = 0,
         microsecond = 0, tzinfo = Some 0\<rparr>
        \<lparr>year = 2025, month = 10, day = 6, hour = 2, minute = 25, second = 37,
         microsecond = 0, tzinfo = Some 0\<rparr> = Inr False
   \<and> dt_cmp (\<lambda>x y. x = y)
        \<lparr>year = 2025, month = 10, day = 5, hour = 19, minute = 25, second = 37,
         microsecond = 0, tzinfo = Some 0\<rparr>
        \<lparr>year = 2025, month = 10, day = 6, hour = 2, minute = 25, second = 37,
         microsecond = 0, tzinfo = Some 0\<rparr> = Inr False"
  by code_simp

section \<open>Date filters and unparseable dates\<close>

lemma date_excludes_unparseable:
  assumes "dict_get e ''published_date'' PNone = v"
    and "v = PNone \<or> v = PStr [] \<or> (\<exists>s. v = PStr s \<and> parse_date h s = Inr None)"
  shows "date_excludes h cmp bound e = Inr False"
  using assms by (auto simp: date_excludes_def exn_bind_def split: option.splits)

text \<open>
  C1, as amended. A record whose publication date is missing, empty or fails to
  normalize is never excluded by a date filter: whatever the bounds \<open>since_dt\<close> and
  \<open>before_dt\<close>, the loop body treats it as it does without date filters, so it is
  kept exactly when it passes the host and text filters.
\<close>

theorem unparseable_date_not_excluded:
  assumes "dict_get e ''published_date'' PNone = v"
    and "v = PNone \<or> v = PStr [] \<or> (\<exists>s. v = PStr s \<and> parse_date h s = Inr None)"
  shows "keep_episode h since_dt before_dt hs ts e = keep_episode h None None hs ts e"
  using date_excludes_unparseable[OF assms]
  by (simp add: keep_episode_def exn_bind_def)

theorem unparseable_date_not_excluded_witness:
  "dict_get (parse_episode ''Show'' item_b) ''published_date'' PNone = PStr ''soon''
   \<and> parse_date host_utc ''soon'' = Inr None
   \<and> keep_episode host_utc
        (Some \<lparr>year = 2025, month = 10, day = 1, hour = 0, minute = 0, second = 0,
               microsecond = 0, tzinfo = Some 0\<rparr>)
        (Some \<lparr>year = 2025, month = 10, day = 1, hour = 0, minute = 0, second = 0,
               microsecond = 0, tzinfo = Some 0\<rparr>)
        None None (parse_episode ''Show'' item_b) = Inr True"
proof -
  have a: "dict_get (parse_episode ''Show'' item_b) ''published_date'' PNone = PStr ''soon''"
    by code_simp
  have b: "parse_date host_utc ''soon'' = Inr None"
    by code_simp
  have c: "PStr ''soon'' = PNone \<or> PStr ''soon'' = PStr []
           \<or> (\<exists>s. PStr ''soon'' = PStr s \<and> parse_date host_utc s = Inr None)"
    using b by simp
  have d: "keep_episode host_utc None None None None (parse_episode ''Show'' item_b) = Inr True"
    by code_simp
  show ?thesis
    using a b d unparseable_date_not_excluded[OF a c, of _ _ None None] by simp
qed

text \<open>
  The claim as stated fails: with the filter \<open>since = 2025-10-01\<close> active, the first
  record of the sample feed has an empty date, the second the date \<open>soon\<close>, which does not
  normalize, and both are in the results.
\<close>

theorem unparseable_date_counterexample:
  "parse_date host_utc ''2025-10-01''
     = Inr (Some \<lparr>year = 2025, month = 10, day = 1, hour = 0, minute = 0, second = 0,
                  microsecond = 0, tzinfo = Some 0\<rparr>)
   \<and> dict_get (parse_episode ''Show'' item_a) ''published_date'' PNone = PStr []
   \<and> dict_get (parse_episode ''Show'' item_b) ''published_date'' PNone = PStr ''soon''
   \<and> parse_date host_utc ''soon'' = Inr None
   \<and> fst (search_episodes (world_of sample_feed) host_utc None (Some ''2025-10-01'') None None
            None one_show)
       = Inr [parse_episode ''Show'' item_a, parse_episode ''Show'' item_b]"
  by code_simp

section \<open>Episode lookup\<close>

lemma scan_items_find:
  "scan_items s q items =
     map_option (parse_episode s)
       (List.find (\<lambda>item. matches_guid q item \<or> matches_number q item) items)"
  by (induction items) (simp_all add: matches_guid_def matches_number_def)

lemma sample_get_feed:
  "fst (get_feed (world_of sample_feed) ''Show'' one_show) = Some sample_feed"
  by code_simp

lemma sample_first_match:
  "List.find (\<lambda>item. matches_guid ''x'' item \<or> matches_number ''x'' item)
             (xpath_items sample_feed) = Some item_a"
  by code_simp

text \<open>
  C3, as amended. \<open>get_episode\<close> returns the record of the first entry, in document
  order, whose unique id equals the query or whose namespaced episode number equals it
  (and nothing when there is none). An entry matched by its unique id is therefore
  returned instead of one matched only by its episode number when it comes first in the
  document, not when it comes later.
\<close>

theorem get_episode_first_match:
  assumes "get_feed w show_name p = (Some feed_root, p')"
  shows "get_episode w show_name q p =
           (map_option (parse_episode show_name)
              (List.find (\<lambda>item. matches_guid q item \<or> matches_number q item)
                         (xpath_items feed_root)),
            p')"
  using assms by (simp add: get_episode_def scan_items_find)

theorem get_episode_first_match_witness:
  "get_feed (world_of sample_feed) ''Show'' one_show
     = (Some sample_feed, snd (get_feed (world_of sample_feed) ''Show'' one_show))
   \<and> fst (get_episode (world_of sample_feed) ''Show'' ''x'' one_show)
       = Some (parse_episode ''Show'' item_a)"
proof -
  have h: "get_feed (world_of sample_feed) ''Show'' one_show
             = (Some sample_feed, snd (get_feed (world_of sample_feed) ''Show'' one_show))"
    using sample_get_feed by (metis prod.collapse)
  show ?thesis
    using h get_episode_first_match[OF h, of "''x''"] sample_first_match by simp
qed

text \<open>
  The claim as stated fails: in the sample feed the first entry matches the query \<open>5\<close>
  only by its episode number, the second by its unique id, and the first is returned.
\<close>

theorem get_episode_precedence_counterexample:
  "xpath_items sample_feed = [item_a, item_b]
   \<and> \<not> matches_guid ''5'' item_a \<and> matches_number ''5'' item_a
   \<and> matches_guid ''5'' item_b
   \<and> parse_episode ''Show'' item_a \<noteq> parse_episode ''Show'' item_b
   \<and> fst (get_episode (world_of sample_feed) ''Show'' ''5'' one_show)
       = Some (parse_episode ''Show'' item_a)"
  by code_simp

section \<open>The order of search results\<close>

lemma filter_episodes_Inr:
  "filter_episodes keep es = Inr rs \<Longrightarrow> rs = filter (\<lambda>e. keep e = Inr True) es"
proof (induction es arbitrary: rs)
  case Nil
  then show ?case by simp
next
  case (Cons e es)
  show ?case
  proof (cases "keep e")
    case (Inl x)
    with Cons.prems show ?thesis by (simp add: exn_bind_def)
  next
    case k: (Inr k)
    show ?thesis
    proof (cases "filter_episodes keep es")
      case (Inl x)
      with k Cons.prems show ?thesis by (simp add: exn_bind_def)
    next
      case (Inr rs')
      with k Cons.prems have "rs = (if k then e # rs' else rs')" by (simp add: exn_bind_def)
      with Cons.IH[OF Inr] k show ?thesis by auto
    qed
  qed
qed

lemma search_shows_concat:
  "search_shows w keep ss p = (Inr rs, p') \<Longrightarrow>
   rs = concat (map (filter (\<lambda>e. keep e = Inr True)) (show_records w ss p))"
proof (induction ss arbitrary: p rs)
  case Nil
  then show ?case by simp
next
  case (Cons s ss)
  obtain r p1 where g: "get_feed w s p = (r, p1)" by (cases "get_feed w s p")
  show ?case
  proof (cases r)
    case None
    with g Cons.prems have "search_shows w keep ss p1 = (Inr rs, p')" by simp
    from Cons.IH[OF this] g None show ?thesis by simp
  next
    case (Some doc)
    let ?es = "map (parse_episode s) (xpath_items doc)"
    from g Some Cons.prems obtain found others where
      f: "filter_episodes keep ?es = Inr found"
      and o: "search_shows w keep ss p1 = (Inr others, p')"
      and rs: "rs = found @ others"
      by (auto split: sum.splits prod.splits)
    from filter_episodes_Inr[OF f] Cons.IH[OF o] rs g Some show ?thesis by simp
  qed
qed

lemma search_episodes_concat:
  assumes "search_episodes w h sn sd bd hs ts p = (Inr results, p')"
  shows "results = concat (map (filter (satisfies_filters h sd bd hs ts))
                               (show_records w (shows_to_search sn p) p))"
proof -
  have sts: "(if str_truthy sn then [the sn] else get_shows p) = shows_to_search sn p"
    by (auto simp: shows_to_search_def str_truthy_def get_shows_def split: option.splits)
  from assms obtain since_dt before_dt where
    s: "(if str_truthy sd then parse_date h (the sd) else Inr None) = Inr since_dt"
    and b: "(if str_truthy bd then parse_date h (the bd) else Inr None) = Inr before_dt"
    and ss: "search_shows w (keep_episode h since_dt before_dt hs ts) (shows_to_search sn p) p
             = (Inr results, p')"
    unfolding search_episodes_def Let_def sts
    by (auto split: if_splits sum.splits simp del: search_shows.simps)
  have "date_bound h sd = since_dt" using s by (auto simp: date_bound_def split: if_splits)
  moreover have "date_bound h bd = before_dt"
    using b by (auto simp: date_bound_def split: if_splits)
  ultimately have "satisfies_filters h sd bd hs ts
                   = (\<lambda>e. keep_episode h since_dt before_dt hs ts e = Inr True)"
    by (auto simp: satisfies_filters_def fun_eq_iff)
  with search_shows_concat[OF ss] show ?thesis by simp
qed

text \<open>
  C7. When a search returns results, they are the concatenation, over the shows in the
  order they are scoped (the given show, or all configured shows in configured order),
  of each show's records in document order with the records that do not satisfy the
  filters left out. So whenever \<open>a\<close> comes before \<open>b\<close> among the records of one show and
  both satisfy all active filters, \<open>a\<close> comes before \<open>b\<close> in the results. No date takes
  part in the order.
\<close>

theorem search_order_preserved:
  assumes "search_episodes w h sn sd bd hs ts p = (Inr results, p')"
  shows "results = concat (map (filter (satisfies_filters h sd bd hs ts))
                               (show_records w (shows_to_search sn p) p))
       \<and> (\<forall>before_shows later_shows g1 g2 g3 a b.
            show_records w (shows_to_search sn p) p
              = before_shows @ [g1 @ [a] @ g2 @ [b] @ g3] @ later_shows
            \<and> satisfies_filters h sd bd hs ts a \<and> satisfies_filters h sd bd hs ts b
            \<longrightarrow> (\<exists>pre mid post. results = pre @ [a] @ mid @ [b] @ post))"
proof (intro conjI allI impI)
  show eq: "results = concat (map (filter (satisfies_filters h sd bd hs ts))
                               (show_records w (shows_to_search sn p) p))"
    using assms by (rule search_episodes_concat)
  fix before_shows later_shows g1 g2 g3 a b
  let ?P = "satisfies_filters h sd bd hs ts"
  assume "show_records w (shows_to_search sn p) p
              = before_shows @ [g1 @ [a] @ g2 @ [b] @ g3] @ later_shows
            \<and> ?P a \<and> ?P b"
  then have "results = (concat (map (filter ?P) before_shows) @ filter ?P g1) @ [a]
                       @ filter ?P g2 @ [b]
                       @ (filter ?P g3 @ concat (map (filter ?P) later_shows))"
    using eq by simp
  then show "\<exists>pre mid post. results = pre @ [a] @ mid @ [b] @ post" by blast
qed

lemma sample_since_search:
  "fst (search_episodes (world_of sample_feed) host_utc None (Some ''2025-10-01'') None None
          None one_show)
     = Inr [parse_episode ''Show'' item_a, parse_episode ''Show'' item_b]"
  by code_simp

lemma sample_show_records:
  "show_records (world_of sample_feed) (shows_to_search None one_show) one_show
     = [[parse_episode ''Show'' item_a, parse_episode ''Show'' item_b]]"
  by code_simp

lemma sample_satisfies:
  "satisfies_filters host_utc (Some ''2025-10-01'') None None None (parse_episode ''Show'' item_a)
   \<and> satisfies_filters host_utc (Some ''2025-10-01'') None None None
        (parse_episode ''Show'' item_b)"
  by code_simp

theorem search_order_preserved_witness:
  "search_episodes (world_of sample_feed) host_utc None (Some ''2025-10-01'') None None None
     one_show
     = (Inr [parse_episode ''Show'' item_a, parse_episode ''Show'' item_b],
        snd (search_episodes (world_of sample_feed) host_utc None (Some ''2025-10-01'') None None
               None one_show))
   \<and> show_records (world_of sample_feed) (shows_to_search None one_show) one_show
       = [] @ [[] @ [parse_episode ''Show'' item_a] @ [] @ [parse_episode ''Show'' item_b] @ []]
         @ []
   \<and> satisfies_filters host_utc (Some ''2025-10-01'') None None None (parse_episode ''Show'' item_a)
   \<and> satisfies_filters host_utc (Some ''2025-10-01'') None None None (parse_episode ''Show'' item_b)
   \<and> (\<exists>pre mid post.
         [parse_episode ''Show'' item_a, parse_episode ''Show'' item_b]
           = pre @ [parse_episode ''Show'' item_a] @ mid @ [parse_episode ''Show'' item_b] @ post)"
proof -
  let ?s = "search_episodes (world_of sample_feed) host_utc None (Some ''2025-10-01'') None None
              None one_show"
  let ?a = "parse_episode ''Show'' item_a"
  let ?b = "parse_episode ''Show'' item_b"
  have h: "?s = (Inr [?a, ?b], snd ?s)"
    using sample_since_search by (metis prod.collapse)
  have g: "show_records (world_of sample_feed) (shows_to_search None one_show) one_show
             = [] @ [[] @ [?a] @ [] @ [?b] @ []] @ []"
    using sample_show_records by simp
  from search_order_preserved[OF h] g sample_satisfies
  have "\<exists>pre mid post. [?a, ?b] = pre @ [?a] @ mid @ [?b] @ post"
    by blast
  then show ?thesis using h g sample_satisfies by blast
qed

section \<open>The feed cache\<close>

text \<open>No method of the parser changes the configured feeds or removes a cache entry.\<close>

lemma get_feed_feeds: "feeds (snd (get_feed w s p)) = feeds p"
  by (auto simp: get_feed_def Let_def split: option.splits sum.splits)

lemma get_feed_keeps:
  "cached_feeds p n = Some d \<Longrightarrow> cached_feeds (snd (get_feed w s p)) n = Some d"
  by (auto simp: get_feed_def Let_def split: option.splits sum.splits)

lemma get_feed_hit:
  "map_of (feeds p) s = Some u \<Longrightarrow> cached_feeds p s = Some d \<Longrightarrow> get_feed w s p = (Some d, p)"
  by (simp add: get_feed_def)

lemma get_feed_Some:
  "get_feed w s p = (Some d, p') \<Longrightarrow> cached_feeds p' s = Some d \<and> map_of (feeds p') s \<noteq> None"
  by (auto simp: get_feed_def Let_def split: option.splits sum.splits)

lemma search_shows_feeds: "feeds (snd (search_shows w keep ss p)) = feeds p"
proof (induction ss arbitrary: p)
  case Nil show ?case by simp
next
  case (Cons s ss)
  obtain r p1 where g: "get_feed w s p = (r, p1)" by (cases "get_feed w s p")
  then have f: "feeds p1 = feeds p" using get_feed_feeds[of w s p] by simp
  show ?case
  proof (cases r)
    case None
    with g f Cons.IH[of p1] show ?thesis by simp
  next
    case (Some d)
    show ?thesis
    proof (cases "filter_episodes keep (map (parse_episode s) (xpath_items d))")
      case (Inl e)
      with g f Some show ?thesis by simp
    next
      case (Inr found)
      with g f Some Cons.IH[of p1] show ?thesis
        by (auto split: prod.splits sum.splits)
    qed
  qed
qed

lemma search_shows_keeps:
  "cached_feeds p n = Some d \<Longrightarrow> cached_feeds (snd (search_shows w keep ss p)) n = Some d"
proof (induction ss arbitrary: p)
  case Nil then show ?case by simp
next
  case (Cons s ss)
  obtain r p1 where g: "get_feed w s p = (r, p1)" by (cases "get_feed w s p")
  then have f: "cached_feeds p1 n = Some d" using get_feed_keeps[OF Cons.prems, of w s] by simp
  show ?case
  proof (cases r)
    case None
    with g Cons.IH[OF f] show ?thesis by simp
  next
    case (Some doc)
    show ?thesis
    proof (cases "filter_episodes keep (map (parse_episode s) (xpath_items doc))")
      case (Inl e)
      with g f Some show ?thesis by simp
    next
      case (Inr found)
      with g f Some Cons.IH[OF f] show ?thesis
        by (auto split: prod.splits sum.splits)
    qed
  qed
qed

lemma search_episodes_feeds:
  "feeds (snd (search_episodes w h sn sd bd hs ts p)) = feeds p"
  by (simp add: search_episodes_def Let_def search_shows_feeds del: search_shows.simps
           split: sum.splits)

lemma search_episodes_keeps:
  "cached_feeds p n = Some d \<Longrightarrow>
   cached_feeds (snd (search_episodes w h sn sd bd hs ts p)) n = Some d"
  by (simp add: search_episodes_def Let_def search_shows_keeps del: search_shows.simps
           split: sum.splits)

lemma get_episode_feeds: "feeds (snd (get_episode w s q p)) = feeds p"
  using get_feed_feeds[of w s p]
  by (auto simp: get_episode_def split: prod.splits option.splits)

lemma get_episode_keeps:
  "cached_feeds p n = Some d \<Longrightarrow> cached_feeds (snd (get_episode w s q p)) n = Some d"
  using get_feed_keeps[of p n d w s]
  by (auto simp: get_episode_def split: prod.splits option.splits)

lemma get_transcript_feeds: "feeds (snd (get_transcript w s q p)) = feeds p"
  using get_episode_feeds[of w s q p]
  by (auto simp: get_transcript_def Let_def
           split: prod.splits option.splits pyval.splits sum.splits)

lemma get_transcript_keeps:
  "cached_feeds p n = Some d \<Longrightarrow> cached_feeds (snd (get_transcript w s q p)) n = Some d"
  using get_episode_keeps[of p n d w s q]
  by (auto simp: get_transcript_def Let_def
           split: prod.splits option.splits pyval.splits sum.splits)

lemma run_call_feeds: "feeds (run_call w h c p) = feeds p"
  by (cases c)
     (simp_all add: get_feed_feeds search_episodes_feeds get_episode_feeds get_transcript_feeds)

lemma run_call_keeps:
  "cached_feeds p n = Some d \<Longrightarrow> cached_feeds (run_call w h c p) n = Some d"
  by (cases c)
     (simp_all add: get_feed_keeps search_episodes_keeps get_episode_keeps get_transcript_keeps)

lemma run_calls_feeds: "feeds (run_calls w h cs p) = feeds p"
  by (induction cs arbitrary: p) (simp_all add: run_call_feeds)

lemma run_calls_keeps:
  "cached_feeds p n = Some d \<Longrightarrow> cached_feeds (run_calls w h cs p) n = Some d"
  by (induction cs arbitrary: p) (simp_all add: run_call_keeps)

text \<open>
  C4. Once a lookup of a show has returned a document, then after any further calls of
  the parser's methods a lookup of that show returns the same document and leaves the
  parser as it is: the fetch log does not grow, so no collaborator is read. When the
  lookup of a configured show fails, the parser holds no cache entry for the show, and
  the next lookup reads the show's URL again: it adds the URL to the fetch log and
  returns what that new read and parse give.
\<close>

theorem feed_cache_invariant:
  "(get_feed w s p = (Some doc, p1) \<longrightarrow>
      (\<forall>calls. get_feed w s (run_calls w h calls p1) = (Some doc, run_calls w h calls p1)))
   \<and> (get_feed w s p = (None, p1) \<and> map_of (feeds p) s = Some url \<longrightarrow>
        cached_feeds p1 s = None
        \<and> fetch_log (snd (get_feed w s p1)) = fetch_log p1 @ [url]
        \<and> fst (get_feed w s p1) =
            (case exn_bind (fetch w (length (fetch_log p1)) url) (fromstring w) of
               Inl e \<Rightarrow> None
             | Inr d \<Rightarrow> Some d))"
proof (intro conjI impI allI)
  fix calls
  assume a: "get_feed w s p = (Some doc, p1)"
  from get_feed_Some[OF a] obtain u where c: "cached_feeds p1 s = Some doc"
    and u: "map_of (feeds p1) s = Some u" by auto
  let ?q = "run_calls w h calls p1"
  have "cached_feeds ?q s = Some doc" using c by (rule run_calls_keeps)
  moreover have "map_of (feeds ?q) s = Some u" using u by (simp add: run_calls_feeds)
  ultimately show "get_feed w s ?q = (Some doc, ?q)" by (rule get_feed_hit[rotated])
next
  assume a: "get_feed w s p = (None, p1) \<and> map_of (feeds p) s = Some url"
  then have 1: "cached_feeds p1 s = None" and 2: "map_of (feeds p1) s = Some url"
    by (auto simp: get_feed_def Let_def split: option.splits sum.splits)
  show "cached_feeds p1 s = None" by (rule 1)
  show "fetch_log (snd (get_feed w s p1)) = fetch_log p1 @ [url]"
    using 1 2 by (auto simp: get_feed_def Let_def split: sum.splits)
  show "fst (get_feed w s p1) =
            (case exn_bind (fetch w (length (fetch_log p1)) url) (fromstring w) of
               Inl e \<Rightarrow> None
             | Inr d \<Rightarrow> Some d)"
    using 1 2 by (auto simp: get_feed_def Let_def split: sum.splits)
qed

lemma flaky_first:
  "fst (get_feed (flaky_world sample_feed) ''Show'' one_show) = None
   \<and> map_of (feeds one_show) ''Show'' = Some ''https://example.com/feed.rss''"
  by code_simp

lemma flaky_second:
  "fst (get_feed (flaky_world sample_feed) ''Show''
          (snd (get_feed (flaky_world sample_feed) ''Show'' one_show))) = Some sample_feed"
  by code_simp

text \<open>
  A parser whose first fetch times out: nothing is cached, the second lookup fetches
  again and succeeds, and after a lookup by number, a text search, a transcript lookup
  and another lookup the document is still served from the cache.
\<close>

theorem feed_cache_invariant_witness:
  "get_feed (flaky_world sample_feed) ''Show'' one_show
     = (None, snd (get_feed (flaky_world sample_feed) ''Show'' one_show))
   \<and> map_of (feeds one_show) ''Show'' = Some ''https://example.com/feed.rss''
   \<and> cached_feeds (snd (get_feed (flaky_world sample_feed) ''Show'' one_show)) ''Show'' = None
   \<and> get_feed (flaky_world sample_feed) ''Show''
        (snd (get_feed (flaky_world sample_feed) ''Show'' one_show))
     = (Some sample_feed,
        snd (get_feed (flaky_world sample_feed) ''Show''
               (snd (get_feed (flaky_world sample_feed) ''Show'' one_show))))
   \<and> get_feed (flaky_world sample_feed) ''Show''
        (run_calls (flaky_world sample_feed) host_utc
           [GetEpisode ''Show'' ''5'',
            SearchEpisodes None None None (Some [''nobody'']) None,
            GetTranscript ''Show'' ''x'',
            GetFeed ''Show'']
           (snd (get_feed (flaky_world sample_feed) ''Show''
                   (snd (get_feed (flaky_world sample_feed) ''Show'' one_show)))))
     = (Some sample_feed,
        run_calls (flaky_world sample_feed) host_utc
           [GetEpisode ''Show'' ''5'',
            SearchEpisodes None None None (Some [''nobody'']) None,
            GetTranscript ''Show'' ''x'',
            GetFeed ''Show'']
           (snd (get_feed (flaky_world sample_feed) ''Show''
                   (snd (get_feed (flaky_world sample_feed) ''Show'' one_show)))))"
proof -
  let ?w = "flaky_world sample_feed"
  let ?p1 = "snd (get_feed ?w ''Show'' one_show)"
  let ?p2 = "snd (get_feed ?w ''Show'' ?p1)"
  have h1: "get_feed ?w ''Show'' one_show = (None, ?p1)"
    using flaky_first by (metis prod.collapse)
  have u: "map_of (feeds one_show) ''Show'' = Some ''https://example.com/feed.rss''"
    using flaky_first by simp
  have h2: "get_feed ?w ''Show'' ?p1 = (Some sample_feed, ?p2)"
    using flaky_second by (metis prod.collapse)
  have c: "cached_feeds ?p1 ''Show'' = None"
    using feed_cache_invariant[of ?w "''Show''" one_show _ ?p1 host_utc
                                  "''https://example.com/feed.rss''"] h1 u
    by blast
  have k: "\<forall>calls. get_feed ?w ''Show'' (run_calls ?w host_utc calls ?p2)
                    = (Some sample_feed, run_calls ?w host_utc calls ?p2)"
    using feed_cache_invariant[of ?w "''Show''" ?p1 sample_feed ?p2 host_utc] h2
    by blast
  show ?thesis using h1 u c h2 k by blast
qed

section \<open>The shape of an episode record\<close>

text \<open>
  C8. Every record has the same thirteen keys. But a field read by \<open>get_text\<close> is
  \<open>None\<close>, not the empty string, when its element is present without text: the first
  entry of the sample feed has an empty \<open>title\<close> element and its record has the title
  \<open>None\<close>. The text filter of a search then fails on that record with an AttributeError,
  calling \<open>lower\<close> on \<open>None\<close>.
\<close>

theorem empty_element_gives_None:
  "map fst (parse_episode show_name item)
     = [''show_name'', ''id'', ''episode_number'', ''title'', ''description'',
        ''published_date'', ''link'', ''duration'', ''hosts'', ''transcript_urls'',
        ''enclosures'', ''chapters_url'', ''transcript_url'']
   \<and> find_child item_a ''title'' = Some (Element ''title'' [] None [])
   \<and> dict_get (parse_episode ''Show'' item_a) ''title'' (PStr ''absent'') = PNone
   \<and> get_cdata_content (Some (Element ''description'' [] None [])) = PStr []
   \<and> fst (search_episodes (world_of sample_feed) host_utc None None None None (Some ''second'')
            one_show)
       = Inl (AttributeError ''object has no attribute lower'')"
proof (intro conjI)
  show "map fst (parse_episode show_name item)
     = [''show_name'', ''id'', ''episode_number'', ''title'', ''description'',
        ''published_date'', ''link'', ''duration'', ''hosts'', ''transcript_urls'',
        ''enclosures'', ''chapters_url'', ''transcript_url'']"
    by (simp add: parse_episode_def Let_def)
  show "find_child item_a ''title'' = Some (Element ''title'' [] None [])"
    by code_simp
  show "dict_get (parse_episode ''Show'' item_a) ''title'' (PStr ''absent'') = PNone"
    by code_simp
  show "get_cdata_content (Some (Element ''description'' [] None [])) = PStr []"
    by code_simp
  show "fst (search_episodes (world_of sample_feed) host_utc None None None None (Some ''second'')
            one_show)
       = Inl (AttributeError ''object has no attribute lower'')"
    by code_simp
qed

end
